theory Spec2Isabelle
  imports Complex_Main "HOL-Library.Finite_Map"
begin

section \<open>Data model\<close>

text \<open>
  An instant (Go \<^verbatim>\<open>time.Time\<close>) is a count of nanoseconds since the zero instant
  \<^verbatim>\<open>time.Time{}\<close>, so that the zero value of the type is \<open>0\<close>. A
  \<^verbatim>\<open>time.Duration\<close> is a count of nanoseconds. A finite \<^verbatim>\<open>float64\<close> is the real
  number it denotes; infinities and NaN have no counterpart. Comparisons of such values are
  exact; a decimal constant stands for the nearest \<^verbatim>\<open>float64\<close> and a product is rounded
  to the nearest \<^verbatim>\<open>float64\<close> (section on binary floating point below).
\<close>

type_synonym Time = int
type_synonym Duration = int

text \<open>\<^verbatim>\<open>models.Subscription\<close> of the subscription service.\<close>

record Subscription =
  ID :: string
  UserID :: string
  Plan :: string
  StartDate :: Time
  EndDate :: Time

text \<open>The zero value \<^verbatim>\<open>models.Subscription{}\<close>.\<close>

definition Subscription_zero :: Subscription where
  "Subscription_zero = \<lparr>ID = [], UserID = [], Plan = [], StartDate = 0, EndDate = 0\<rparr>"

text \<open>\<^verbatim>\<open>models.PaymentRequest\<close> and \<^verbatim>\<open>models.PaymentResponse\<close> of the subscription service.\<close>

record SubscriptionPaymentRequest =
  req_SubscriptionID :: string
  req_Amount :: real
  req_Plan :: string

record SubscriptionPaymentResponse =
  resp_ID :: string
  resp_Status :: string
  resp_Message :: string

definition GetPlanPrice :: "string \<Rightarrow> real" where
  "GetPlanPrice plan =
     (if plan = ''basic'' then 10.0
      else if plan = ''premium'' then 20.0
      else 0.0)"

definition IsValidPlan :: "string \<Rightarrow> bool" where
  "IsValidPlan plan \<longleftrightarrow> plan = ''basic'' \<or> plan = ''premium''"

section \<open>Formatting of integers\<close>

text \<open>The verb \<^verbatim>\<open>%d\<close> of \<^verbatim>\<open>fmt.Sprintf\<close>: decimal digits, a minus sign for negatives.\<close>

definition digit :: "nat \<Rightarrow> char" where
  "digit d = ''0123456789'' ! d"

fun decimal :: "nat \<Rightarrow> string" where
  "decimal n = (if n < 10 then [digit n] else decimal (n div 10) @ [digit (n mod 10)])"

declare decimal.simps [simp del]

definition Sprintf_d :: "int \<Rightarrow> string" where
  "Sprintf_d i = (if i < 0 then CHR ''-'' # decimal (nat (- i)) else decimal (nat i))"

section \<open>Binary floating point\<close>

text \<open>
  Go's \<^verbatim>\<open>float64\<close> is IEEE 754 binary64: 53 significant bits, least exponent -1022,
  subnormal values in steps of 2 to the power -1074, and results rounded to the nearest
  value, ties to the even significand. \<open>bitlen n\<close> is the number of binary digits of
  \<open>n\<close>; \<open>exponent x\<close> is the integer \<open>e\<close> with \<open>2 powi e \<le> \<bar>x\<bar> < 2 powi (e + 1)\<close>;
  \<open>roundToEven\<close> rounds to the nearest integer, a tie to the even one; \<open>float64 x\<close> is the
  binary64 value nearest to \<open>x\<close>, for \<open>x\<close> of magnitude below 2 to the power 1024 (beyond it
  the machine's result is an infinity). A constant such as \<^verbatim>\<open>0.029\<close> is converted once,
  to \<open>float64 0.029\<close>; the product \<^verbatim>\<open>a * b\<close> of two \<^verbatim>\<open>float64\<close> values is
  \<open>float64 (a * b)\<close>.
\<close>

fun bitlen :: "nat \<Rightarrow> nat" where
  "bitlen n = (if n = 0 then 0 else Suc (bitlen (n div 2)))"

declare bitlen.simps [simp del]

definition exponent :: "real \<Rightarrow> int" where
  "exponent x =
     (if 1 \<le> \<bar>x\<bar> then int (bitlen (nat \<lfloor>\<bar>x\<bar>\<rfloor>)) - 1
      else - int (bitlen (nat (\<lceil>1 / \<bar>x\<bar>\<rceil> - 1))))"

definition roundToEven :: "real \<Rightarrow> int" where
  "roundToEven y =
     (let n = \<lfloor>y\<rfloor>; f = y - of_int n
      in if f < 1 / 2 then n
         else if 1 / 2 < f then n + 1
         else if even n then n else n + 1)"

definition float64 :: "real \<Rightarrow> real" where
  "float64 x =
     (if x = 0 then 0
      else (let q = max (exponent x - 52) (- 1074)
            in of_int (roundToEven (x / 2 powi q)) * 2 powi q))"

section \<open>The subscription repository\<close>

text \<open>
  \<^verbatim>\<open>SubscriptionRepository\<close> is a Go map from identifiers to subscriptions behind one
  \<^verbatim>\<open>sync.RWMutex\<close>. Every method holds the lock for its whole body, so each call is
  one atomic step on the map and any concurrent execution is a sequence of such steps in
  the order in which the lock was taken. The map is finite, with at most one value per key.
\<close>

type_synonym Repository = "(string, Subscription) fmap"

definition NewSubscriptionRepository :: Repository where
  "NewSubscriptionRepository = fmempty"

text \<open>
  What \<^verbatim>\<open>Create\<close> reads from outside: the value of \<^verbatim>\<open>rand.Int()\<close> (never negative),
  the first reading of the clock, and the value of \<^verbatim>\<open>time.Now().AddDate(1, 0, 0)\<close> at
  the second reading.
\<close>

record CreateEnv =
  rand_Int :: nat
  time_Now :: Time
  time_Now_AddDate :: Time

definition Create :: "CreateEnv \<Rightarrow> string \<Rightarrow> string \<Rightarrow> Repository \<Rightarrow> Subscription \<times> Repository" where
  "Create env userID plan r =
     (let sub = \<lparr>ID = ''sub_'' @ Sprintf_d (int (rand_Int env)),
                 UserID = userID,
                 Plan = plan,
                 StartDate = time_Now env,
                 EndDate = time_Now_AddDate env\<rparr>
      in (sub, fmupd (ID sub) sub r))"

definition GetByID :: "string \<Rightarrow> Repository \<Rightarrow> Subscription \<times> bool" where
  "GetByID id' r =
     (case fmlookup r id' of
        None \<Rightarrow> (Subscription_zero, False)
      | Some sub \<Rightarrow> (sub, True))"

definition Update :: "string \<Rightarrow> string \<Rightarrow> string \<Rightarrow> Repository \<Rightarrow> (Subscription \<times> bool) \<times> Repository" where
  "Update id' userID plan r =
     (case fmlookup r id' of
        None \<Rightarrow> ((Subscription_zero, False), r)
      | Some sub \<Rightarrow>
          (let sub' = sub\<lparr>UserID := userID, Plan := plan\<rparr>
           in ((sub', True), fmupd id' sub' r)))"

definition Delete :: "string \<Rightarrow> Repository \<Rightarrow> (Subscription \<times> bool) \<times> Repository" where
  "Delete id' r =
     (case fmlookup r id' of
        None \<Rightarrow> ((Subscription_zero, False), r)
      | Some sub \<Rightarrow> ((sub, True), fmdrop id' r))"

definition Count :: "Repository \<Rightarrow> nat" where
  "Count r = fcard (fmdom r)"

section \<open>The payment service\<close>

text \<open>\<^verbatim>\<open>models.PaymentRequest\<close>, \<^verbatim>\<open>models.PaymentResponse\<close> and \<^verbatim>\<open>models.PaymentError\<close>
  of the payment service. A response built without \<^verbatim>\<open>Fees\<close> has the zero value there.\<close>

record PaymentRequest =
  pr_SubscriptionID :: string
  pr_Amount :: real
  pr_Plan :: string
  pr_Currency :: string
  pr_Method :: string

record PaymentResponse =
  rs_ID :: string
  rs_Status :: string
  rs_Amount :: real
  rs_Currency :: string
  rs_ProcessedAt :: Time
  rs_Fees :: real

record PaymentError =
  Code :: string
  Message :: string
  Type :: string

definition StatusCompleted :: string where "StatusCompleted = ''completed''"
definition StatusFailed :: string where "StatusFailed = ''failed''"

definition ErrorTypeInsufficientFunds :: string where "ErrorTypeInsufficientFunds = ''insufficient_funds''"
definition ErrorTypeInvalidCard :: string where "ErrorTypeInvalidCard = ''invalid_card''"
definition ErrorTypeNetworkError :: string where "ErrorTypeNetworkError = ''network_error''"
definition ErrorTypeProcessingError :: string where "ErrorTypeProcessingError = ''processing_error''"
definition ErrorTypeTimeout :: string where "ErrorTypeTimeout = ''timeout''"

text \<open>\<^verbatim>\<open>ValidatePaymentRequest\<close> returns \<^verbatim>\<open>nil\<close> (\<open>None\<close>) or the first failing check.\<close>

definition ValidatePaymentRequest :: "PaymentRequest \<Rightarrow> PaymentError option" where
  "ValidatePaymentRequest req =
     (if pr_SubscriptionID req = [] then
        Some \<lparr>Code = ''MISSING_SUBSCRIPTION_ID'',
              Message = ''subscription ID is required'',
              Type = ''validation_error''\<rparr>
      else if pr_Amount req \<le> 0 then
        Some \<lparr>Code = ''INVALID_AMOUNT'',
              Message = ''amount must be greater than 0'',
              Type = ''validation_error''\<rparr>
      else if pr_Plan req = [] then
        Some \<lparr>Code = ''MISSING_PLAN'',
              Message = ''plan is required'',
              Type = ''validation_error''\<rparr>
      else None)"

text \<open>\<^verbatim>\<open>GeneratePaymentID\<close>, from the clock reading in nanoseconds and \<^verbatim>\<open>rand.Int31()\<close>.\<close>

definition GeneratePaymentID :: "int \<Rightarrow> nat \<Rightarrow> string" where
  "GeneratePaymentID unixNano int31 =
     ''pmt_'' @ Sprintf_d unixNano @ ''_'' @ Sprintf_d (int int31)"

text \<open>
  \<^verbatim>\<open>CalculateFees\<close>: the rate is a \<^verbatim>\<open>float64\<close> constant, the product is a
  \<^verbatim>\<open>float64\<close> multiplication and the floor is the \<^verbatim>\<open>float64\<close> constant \<^verbatim>\<open>0.30\<close>.
\<close>

definition CalculateFees :: "real \<Rightarrow> string \<Rightarrow> real" where
  "CalculateFees amount plan =
     (let baseRate = (if plan = ''premium'' then float64 0.025
                      else if plan = ''enterprise'' then float64 0.02
                      else float64 0.029);
          fee = float64 (amount * baseRate)
      in if fee < float64 0.30 then float64 0.30 else fee)"

text \<open>\<^verbatim>\<open>ShouldSimulateFailure\<close>, given the value drawn by \<^verbatim>\<open>rand.Float64()\<close>.\<close>

definition ShouldSimulateFailure :: "real \<Rightarrow> real \<Rightarrow> bool" where
  "ShouldSimulateFailure draw failureRate \<longleftrightarrow> draw < failureRate"

text \<open>\<^verbatim>\<open>rand.Intn(n)\<close> yields a value below \<open>n\<close>: the raw draw reduced modulo \<open>n\<close>.\<close>

definition rand_Intn :: "nat \<Rightarrow> nat \<Rightarrow> nat" where
  "rand_Intn raw n = raw mod n"

definition failures :: "PaymentError list" where
  "failures =
     [\<lparr>Code = ''INSUFFICIENT_FUNDS'',
       Message = ''insufficient funds in account'',
       Type = ErrorTypeInsufficientFunds\<rparr>,
      \<lparr>Code = ''INVALID_CARD'',
       Message = ''invalid or expired card'',
       Type = ErrorTypeInvalidCard\<rparr>,
      \<lparr>Code = ''NETWORK_ERROR'',
       Message = ''network connection failed'',
       Type = ErrorTypeNetworkError\<rparr>,
      \<lparr>Code = ''PROCESSING_ERROR'',
       Message = ''payment processor temporarily unavailable'',
       Type = ErrorTypeProcessingError\<rparr>,
      \<lparr>Code = ''TIMEOUT'',
       Message = ''payment processing timeout'',
       Type = ErrorTypeTimeout\<rparr>]"

definition GetRandomFailureType :: "nat \<Rightarrow> PaymentError" where
  "GetRandomFailureType raw = failures ! rand_Intn raw (length failures)"

text \<open>The fields of \<^verbatim>\<open>config.Config\<close> that the processor reads.\<close>

record Config =
  ProcessingDelay :: Duration
  EnableFailures :: bool
  FailureRate :: real

text \<open>
  A \<^verbatim>\<open>context.Context\<close> is represented by what its \<^verbatim>\<open>Err()\<close> reports during the
  call: \<open>None\<close> while it is live, the reason once it is cancelled or its deadline has elapsed.
\<close>

datatype ContextError = Canceled | DeadlineExceeded

type_synonym Context = "ContextError option"

text \<open>
  What \<^verbatim>\<open>PaymentProcessor.ProcessPayment\<close> reads from the random source and the clock,
  one field per call site: the draw of \<^verbatim>\<open>ShouldSimulateFailure\<close>, the draw that picks the
  failure, the two arguments of the payment identifier, the time of processing, and the
  two draws of the extra delay.
\<close>

record ProcessorEnv =
  failure_Float64 :: real
  failure_Intn :: nat
  id_UnixNano :: int
  id_Int31 :: nat
  processed_Now :: Time
  delay_Float64 :: real
  delay_Intn :: nat

text \<open>The simulated activity of a call, in order: sleeps and draws from the random source.\<close>

datatype Effect = Sleep Duration | Rand_Float64 | Rand_Intn nat | Rand_Int31

definition Millisecond :: Duration where
  "Millisecond = 1000000"

text \<open>The pair \<^verbatim>\<open>(*PaymentResponse, error)\<close> that the processor returns, with its activity.\<close>

record Outcome =
  response :: "PaymentResponse option"
  err :: "PaymentError option"
  effects :: "Effect list"

definition getCurrency :: "PaymentRequest \<Rightarrow> string" where
  "getCurrency req = (if pr_Currency req \<noteq> [] then pr_Currency req else ''USD'')"

text \<open>
  \<^verbatim>\<open>PaymentProcessor.ProcessPayment\<close>. The context is handed to the tracer only; logging
  and span attributes are left out. The failure test is \<^verbatim>\<open>EnableFailures && ShouldSimulateFailure(...)\<close>,
  so the first draw happens only when failures are enabled.
\<close>

definition ProcessPayment :: "Config \<Rightarrow> ProcessorEnv \<Rightarrow> Context \<Rightarrow> PaymentRequest \<Rightarrow> Outcome" where
  "ProcessPayment config env ctx req =
     (case ValidatePaymentRequest req of
        Some e \<Rightarrow> \<lparr>response = None, err = Some e, effects = []\<rparr>
      | None \<Rightarrow>
          (let delay = (if ProcessingDelay config > 0 then [Sleep (ProcessingDelay config)] else []);
               draw = (if EnableFailures config then [Rand_Float64] else [])
           in if EnableFailures config
                 \<and> ShouldSimulateFailure (failure_Float64 env) (FailureRate config) then
                (let failure = GetRandomFailureType (failure_Intn env)
                 in \<lparr>response = Some \<lparr>rs_ID = GeneratePaymentID (id_UnixNano env) (id_Int31 env),
                                      rs_Status = StatusFailed,
                                      rs_Amount = pr_Amount req,
                                      rs_Currency = getCurrency req,
                                      rs_ProcessedAt = processed_Now env,
                                      rs_Fees = 0\<rparr>,
                     err = Some failure,
                     effects = delay @ draw @ [Rand_Intn (length failures), Rand_Int31]\<rparr>)
              else
                (let resp = \<lparr>rs_ID = GeneratePaymentID (id_UnixNano env) (id_Int31 env),
                             rs_Status = StatusCompleted,
                             rs_Amount = pr_Amount req,
                             rs_Currency = getCurrency req,
                             rs_ProcessedAt = processed_Now env,
                             rs_Fees = CalculateFees (pr_Amount req) (pr_Plan req)\<rparr>;
                     extra = (if delay_Float64 env < float64 0.1
                              then [Rand_Intn 200, Sleep (int (rand_Intn (delay_Intn env) 200) * Millisecond)]
                              else [])
                 in \<lparr>response = Some resp,
                     err = None,
                     effects = delay @ draw @ [Rand_Int31, Rand_Float64] @ extra\<rparr>)))"

section \<open>The payment client of the subscription service\<close>

text \<open>
  \<^verbatim>\<open>PaymentService.ProcessPayment\<close> posts the request over HTTP. The errors of the
  library calls it makes are values of \<open>LibError\<close>; the method wraps each of them with
  \<^verbatim>\<open>fmt.Errorf("...: %w", err)\<close>, and reports a status other than 200 by its code.
\<close>

datatype LibError = context_DeadlineExceeded | context_Canceled | OtherError string

datatype ClientError = Errorf string LibError | Errorf_status int

record HttpRequest =
  hr_ctx :: Context
  hr_method :: string
  hr_url :: string
  hr_body :: string

record HttpResponse =
  StatusCode :: int
  Body :: string

text \<open>
  The struct's \<^verbatim>\<open>baseURL\<close>, and the behaviour of what the method calls:
  \<^verbatim>\<open>json.Marshal\<close>, \<^verbatim>\<open>http.NewRequestWithContext\<close>, \<^verbatim>\<open>client.Do\<close> (the network and
  the remote service) and the JSON decoder.
\<close>

record PaymentService =
  baseURL :: string
  json_Marshal :: "SubscriptionPaymentRequest \<Rightarrow> LibError + string"
  http_NewRequestWithContext :: "Context \<Rightarrow> string \<Rightarrow> string \<Rightarrow> string \<Rightarrow> LibError + HttpRequest"
  client_Do :: "HttpRequest \<Rightarrow> LibError + HttpResponse"
  json_Decode :: "string \<Rightarrow> LibError + SubscriptionPaymentResponse"

definition StatusOK :: int where "StatusOK = 200"

definition PaymentService_ProcessPayment ::
    "PaymentService \<Rightarrow> Context \<Rightarrow> SubscriptionPaymentRequest \<Rightarrow> ClientError + SubscriptionPaymentResponse" where
  "PaymentService_ProcessPayment p ctx req =
     (case json_Marshal p req of
        Inl e \<Rightarrow> Inl (Errorf ''failed to marshal payment request'' e)
      | Inr paymentData \<Rightarrow>
     (case http_NewRequestWithContext p ctx ''POST'' (baseURL p @ ''/payments'') paymentData of
        Inl e \<Rightarrow> Inl (Errorf ''failed to create payment request'' e)
      | Inr httpReq \<Rightarrow>
     (case client_Do p httpReq of
        Inl e \<Rightarrow> Inl (Errorf ''failed to send payment request'' e)
      | Inr resp \<Rightarrow>
          if StatusCode resp \<noteq> StatusOK then Inl (Errorf_status (StatusCode resp))
          else (case json_Decode p (Body resp) of
                  Inl e \<Rightarrow> Inl (Errorf ''failed to decode payment response'' e)
                | Inr paymentResp \<Rightarrow> Inr paymentResp))))"

section \<open>The create-subscription handlers\<close>

text \<open>
  A handler receives the decoded body (\<open>None\<close> when decoding fails; an absent field decodes
  to the empty string), the request's context, the repository and the payment client. It
  answers with \<^verbatim>\<open>http.Error\<close> or with the encoded subscription. The calls it makes on
  the repository and on the payment client are recorded in order. Logging, metrics and
  spans are left out.
\<close>

datatype Reply = http_Error string int | json_Encode Subscription

datatype Call =
    Call_Create string string
  | Call_ProcessPayment Context SubscriptionPaymentRequest
  | Call_Delete string

record Handled =
  reply :: Reply
  repository :: Repository
  calls :: "Call list"

definition StatusBadRequest :: int where "StatusBadRequest = 400"
definition StatusInternalServerError :: int where "StatusInternalServerError = 500"

text \<open>\<^verbatim>\<open>V1Handler.createSubscription\<close>: on a payment error it answers and returns.\<close>

definition V1_createSubscription ::
    "PaymentService \<Rightarrow> CreateEnv \<Rightarrow> Context \<Rightarrow> (string \<times> string) option \<Rightarrow> Repository \<Rightarrow> Handled" where
  "V1_createSubscription ps env ctx body r =
     (case body of
        None \<Rightarrow> \<lparr>reply = http_Error ''Bad request'' StatusBadRequest, repository = r, calls = []\<rparr>
      | Some (userID, plan) \<Rightarrow>
          if userID = [] \<or> plan = [] then
            \<lparr>reply = http_Error ''Missing required fields'' StatusBadRequest, repository = r, calls = []\<rparr>
          else if \<not> IsValidPlan plan then
            \<lparr>reply = http_Error ''Invalid plan'' StatusBadRequest, repository = r, calls = []\<rparr>
          else
            (let (sub, r1) = Create env userID plan r;
                 paymentReq = \<lparr>req_SubscriptionID = ID sub,
                               req_Amount = GetPlanPrice (Plan sub),
                               req_Plan = Plan sub\<rparr>
             in case PaymentService_ProcessPayment ps ctx paymentReq of
                  Inl e \<Rightarrow>
                    \<lparr>reply = http_Error ''Payment processing failed'' StatusInternalServerError,
                     repository = r1,
                     calls = [Call_Create userID plan, Call_ProcessPayment ctx paymentReq]\<rparr>
                | Inr _ \<Rightarrow>
                    \<lparr>reply = json_Encode sub,
                     repository = r1,
                     calls = [Call_Create userID plan, Call_ProcessPayment ctx paymentReq]\<rparr>))"

text \<open>\<^verbatim>\<open>V2Handler.createSubscription\<close>: on a payment error it deletes the new record first.\<close>

definition V2_createSubscription ::
    "PaymentService \<Rightarrow> CreateEnv \<Rightarrow> Context \<Rightarrow> (string \<times> string) option \<Rightarrow> Repository \<Rightarrow> Handled" where
  "V2_createSubscription ps env ctx body r =
     (case body of
        None \<Rightarrow> \<lparr>reply = http_Error ''Bad request'' StatusBadRequest, repository = r, calls = []\<rparr>
      | Some (userID, plan) \<Rightarrow>
          if userID = [] \<or> plan = [] then
            \<lparr>reply = http_Error ''Missing required fields'' StatusBadRequest, repository = r, calls = []\<rparr>
          else if \<not> IsValidPlan plan then
            \<lparr>reply = http_Error ''Invalid plan'' StatusBadRequest, repository = r, calls = []\<rparr>
          else
            (let (sub, r1) = Create env userID plan r;
                 paymentReq = \<lparr>req_SubscriptionID = ID sub,
                               req_Amount = GetPlanPrice (Plan sub),
                               req_Plan = Plan sub\<rparr>
             in case PaymentService_ProcessPayment ps ctx paymentReq of
                  Inl e \<Rightarrow>
                    (let (_, r2) = Delete (ID sub) r1
                     in \<lparr>reply = http_Error ''Payment processing failed'' StatusInternalServerError,
                         repository = r2,
                         calls = [Call_Create userID plan, Call_ProcessPayment ctx paymentReq,
                                  Call_Delete (ID sub)]\<rparr>)
                | Inr _ \<Rightarrow>
                    \<lparr>reply = json_Encode sub,
                     repository = r1,
                     calls = [Call_Create userID plan, Call_ProcessPayment ctx paymentReq]\<rparr>))"

text \<open>
  \<^verbatim>\<open>TracingV3.TraceOperation\<close> runs the operation under a span of the given context and
  returns the operation's error.
\<close>

definition TraceOperation :: "Context \<Rightarrow> (Context \<Rightarrow> 'e option) \<Rightarrow> 'e option" where
  "TraceOperation ctx operation = operation ctx"

text \<open>\<^verbatim>\<open>V3Handler.createSubscription\<close>: the payment call runs inside \<^verbatim>\<open>TraceOperation\<close>.\<close>

definition V3_createSubscription ::
    "PaymentService \<Rightarrow> CreateEnv \<Rightarrow> Context \<Rightarrow> (string \<times> string) option \<Rightarrow> Repository \<Rightarrow> Handled" where
  "V3_createSubscription ps env ctx body r =
     (case body of
        None \<Rightarrow> \<lparr>reply = http_Error ''Bad request'' StatusBadRequest, repository = r, calls = []\<rparr>
      | Some (userID, plan) \<Rightarrow>
          if userID = [] \<or> plan = [] then
            \<lparr>reply = http_Error ''Missing required fields'' StatusBadRequest, repository = r, calls = []\<rparr>
          else if \<not> IsValidPlan plan then
            \<lparr>reply = http_Error ''Invalid plan'' StatusBadRequest, repository = r, calls = []\<rparr>
          else
            (let (sub, r1) = Create env userID plan r;
                 paymentReq = \<lparr>req_SubscriptionID = ID sub,
                               req_Amount = GetPlanPrice (Plan sub),
                               req_Plan = Plan sub\<rparr>;
                 paymentErr = TraceOperation ctx (\<lambda>ctx'.
                   case PaymentService_ProcessPayment ps ctx' paymentReq of
                     Inl e \<Rightarrow> Some e
                   | Inr _ \<Rightarrow> None)
             in case paymentErr of
                  Some e \<Rightarrow>
                    (let (_, r2) = Delete (ID sub) r1
                     in \<lparr>reply = http_Error ''Payment processing failed'' StatusInternalServerError,
                         repository = r2,
                         calls = [Call_Create userID plan, Call_ProcessPayment ctx paymentReq,
                                  Call_Delete (ID sub)]\<rparr>)
                | None \<Rightarrow>
                    \<lparr>reply = json_Encode sub,
                     repository = r1,
                     calls = [Call_Create userID plan, Call_ProcessPayment ctx paymentReq]\<rparr>))"

text \<open>A run of \<^verbatim>\<open>Create\<close> calls, in the order in which they take the lock.\<close>

fun CreateAll :: "(CreateEnv \<times> string \<times> string) list \<Rightarrow> Repository \<Rightarrow> Repository" where
  "CreateAll [] r = r"
| "CreateAll ((env, userID, plan) # cs) r = CreateAll cs (snd (Create env userID plan r))"

text \<open>
  Any run of calls on the repository, in the order in which they take the lock.
\<close>

datatype RepositoryCall =
    Do_Create CreateEnv string string
  | Do_Update string string string
  | Do_Delete string

fun perform :: "RepositoryCall \<Rightarrow> Repository \<Rightarrow> Repository" where
  "perform (Do_Create env userID plan) r = snd (Create env userID plan r)"
| "perform (Do_Update id' userID plan) r = snd (Update id' userID plan r)"
| "perform (Do_Delete id') r = snd (Delete id' r)"

fun performAll :: "RepositoryCall list \<Rightarrow> Repository \<Rightarrow> Repository" where
  "performAll [] r = r"
| "performAll (c # cs) r = performAll cs (perform c r)"

section \<open>Sample values\<close>

definition sub_1 :: Subscription where
  "sub_1 = \<lparr>ID = ''sub_1'', UserID = ''u1'', Plan = ''basic'', StartDate = 100, EndDate = 200\<rparr>"

definition repo_1 :: Repository where
  "repo_1 = fmupd ''sub_1'' sub_1 fmempty"

definition env_7 :: CreateEnv where
  "env_7 = \<lparr>rand_Int = 7, time_Now = 100, time_Now_AddDate = 200\<rparr>"

definition env_8 :: CreateEnv where
  "env_8 = \<lparr>rand_Int = 8, time_Now = 101, time_Now_AddDate = 201\<rparr>"

definition config_failing :: Config where
  "config_failing = \<lparr>ProcessingDelay = 100 * Millisecond, EnableFailures = True, FailureRate = 1\<rparr>"

definition config_default :: Config where
  "config_default = \<lparr>ProcessingDelay = 100 * Millisecond, EnableFailures = False, FailureRate = float64 0.1\<rparr>"

definition processor_env :: ProcessorEnv where
  "processor_env = \<lparr>failure_Float64 = 0.5, failure_Intn = 12, id_UnixNano = 42, id_Int31 = 5,
                     processed_Now = 300, delay_Float64 = 0.5, delay_Intn = 3\<rparr>"

definition request_premium :: PaymentRequest where
  "request_premium = \<lparr>pr_SubscriptionID = ''sub_7'', pr_Amount = 20, pr_Plan = ''premium'',
                       pr_Currency = [], pr_Method = []\<rparr>"

text \<open>
  Payment clients for the examples: one whose remote service answers 200, one whose remote
  service answers 400 (as the payment service does for a declined charge), and one whose
  transport gives up with the error of the request's context.
\<close>

definition new_request :: "Context \<Rightarrow> string \<Rightarrow> string \<Rightarrow> string \<Rightarrow> LibError + HttpRequest" where
  "new_request ctx method url body = Inr \<lparr>hr_ctx = ctx, hr_method = method, hr_url = url, hr_body = body\<rparr>"

definition service_ok :: PaymentService where
  "service_ok =
     \<lparr>baseURL = ''http://payment-service:8081'',
      json_Marshal = (\<lambda>req. Inr ''{}''),
      http_NewRequestWithContext = new_request,
      client_Do = (\<lambda>req. Inr \<lparr>StatusCode = 200, Body = ''{}''\<rparr>),
      json_Decode = (\<lambda>body. Inr \<lparr>resp_ID = ''pmt_42_5'', resp_Status = ''completed'', resp_Message = []\<rparr>)\<rparr>"

definition service_declined :: PaymentService where
  "service_declined = service_ok\<lparr>client_Do := (\<lambda>req. Inr \<lparr>StatusCode = 400, Body = ''{}''\<rparr>)\<rparr>"

definition service_deadline :: PaymentService where
  "service_deadline = service_ok\<lparr>client_Do := (\<lambda>req.
     case hr_ctx req of
       None \<Rightarrow> Inr \<lparr>StatusCode = 200, Body = ''{}''\<rparr>
     | Some Canceled \<Rightarrow> Inl context_Canceled
     | Some DeadlineExceeded \<Rightarrow> Inl context_DeadlineExceeded)\<rparr>"

definition env_1 :: CreateEnv where
  "env_1 = \<lparr>rand_Int = 1, time_Now = 500, time_Now_AddDate = 600\<rparr>"

section \<open>Formatting is injective\<close>

lemma digit_inj:
  assumes "d < 10" "e < 10" "digit d = digit e"
  shows "d = e"
proof -
  have "distinct ''0123456789''" by simp
  moreover have "d < length ''0123456789''" "e < length ''0123456789''" using assms by simp_all
  ultimately show ?thesis using assms(3) unfolding digit_def
    by (simp only: nth_eq_iff_index_eq)
qed

lemma decimal_not_Nil: "decimal n \<noteq> []"
  by (subst decimal.simps) simp

lemma decimal_inj: "decimal m = decimal n \<Longrightarrow> m = n"
proof (induction m arbitrary: n rule: decimal.induct)
  case (1 m)
  show ?case
  proof (cases "m < 10")
    case small_m: True
    show ?thesis
    proof (cases "n < 10")
      case True
      with small_m 1(2) show ?thesis
        by (simp add: decimal.simps [of m] decimal.simps [of n] digit_inj)
    next
      case False
      with small_m 1(2) decimal_not_Nil [of "n div 10"] show ?thesis
        by (simp add: decimal.simps [of m] decimal.simps [of n])
    qed
  next
    case big_m: False
    show ?thesis
    proof (cases "n < 10")
      case True
      with big_m 1(2) decimal_not_Nil [of "m div 10"] show ?thesis
        by (simp add: decimal.simps [of m] decimal.simps [of n])
    next
      case False
      with big_m 1(2) have eq: "decimal (m div 10) = decimal (n div 10)"
        and dg: "digit (m mod 10) = digit (n mod 10)"
        by (simp_all add: decimal.simps [of m] decimal.simps [of n])
      from 1(1) [OF big_m eq] have "m div 10 = n div 10" .
      moreover from dg have "m mod 10 = n mod 10" by (simp add: digit_inj)
      ultimately show ?thesis by (metis div_mult_mod_eq)
    qed
  qed
qed

lemma inj_sub_id: "inj_on (\<lambda>n. ''sub_'' @ decimal n) A"
  by (rule inj_onI) (simp add: decimal_inj)

section \<open>The repository\<close>

lemma Create_ID: "ID (fst (Create env u p r)) = ''sub_'' @ decimal (rand_Int env)"
  by (simp add: Create_def Sprintf_d_def Let_def)

lemma Create_fields:
  "UserID (fst (Create env u p r)) = u" "Plan (fst (Create env u p r)) = p"
  by (simp_all add: Create_def Let_def)

lemma Create_repo:
  "snd (Create env u p r) = fmupd (ID (fst (Create env u p r))) (fst (Create env u p r)) r"
  by (simp add: Create_def Let_def)

lemma fmdom_CreateAll:
  "fmdom (CreateAll cs r) =
     fmdom r |\<union>| fset_of_list (map (\<lambda>c. ''sub_'' @ decimal (rand_Int (fst c))) cs)"
  by (induction cs r rule: CreateAll.induct) (auto simp add: Create_repo Create_ID)

lemma keyed_CreateAll:
  "(\<forall>k s. fmlookup r k = Some s \<longrightarrow> ID s = k) \<Longrightarrow> fmlookup (CreateAll cs r) k = Some s \<Longrightarrow> ID s = k"
proof (induction cs r rule: CreateAll.induct)
  case (1 r)
  then show ?case by simp
next
  case (2 env userID plan cs r)
  show ?case
  proof (rule 2(1))
    show "\<forall>k s. fmlookup (snd (Create env userID plan r)) k = Some s \<longrightarrow> ID s = k"
      using 2(2) by (auto simp add: Create_def Let_def)
    show "fmlookup (CreateAll cs (snd (Create env userID plan r))) k = Some s"
      using 2(3) by simp
  qed
qed

lemma keyed_perform:
  assumes "\<forall>k s. fmlookup r k = Some s \<longrightarrow> ID s = k"
  shows "\<forall>k s. fmlookup (perform c r) k = Some s \<longrightarrow> ID s = k"
proof (cases c)
  case (Do_Create env userID plan)
  with assms show ?thesis by (auto simp add: Create_def Let_def)
next
  case (Do_Update i userID plan)
  with assms show ?thesis
    by (auto simp add: Update_def Let_def split: option.splits if_splits)
next
  case (Do_Delete i)
  with assms show ?thesis
    by (auto simp add: Delete_def split: option.splits if_splits)
qed

lemma keyed_performAll:
  "(\<forall>k s. fmlookup r k = Some s \<longrightarrow> ID s = k) \<Longrightarrow> fmlookup (performAll cs r) k = Some s \<Longrightarrow> ID s = k"
proof (induction cs arbitrary: r)
  case Nil
  then show ?case by simp
next
  case (Cons c cs)
  from Cons.prems(2) have "fmlookup (performAll cs (perform c r)) k = Some s" by simp
  with keyed_perform [OF Cons.prems(1), of c] show ?case by (rule Cons.IH)
qed

lemma Count_CreateAll_empty:
  "Count (CreateAll cs NewSubscriptionRepository) = card (rand_Int ` fst ` set cs)"
proof -
  have "Count (CreateAll cs NewSubscriptionRepository)
          = card (set (map (\<lambda>c. ''sub_'' @ decimal (rand_Int (fst c))) cs))"
    by (simp add: Count_def fmdom_CreateAll NewSubscriptionRepository_def fcard.rep_eq
          fset_of_list.rep_eq)
  also have "set (map (\<lambda>c. ''sub_'' @ decimal (rand_Int (fst c))) cs)
               = (\<lambda>n. ''sub_'' @ decimal n) ` (rand_Int ` fst ` set cs)"
    by (auto simp add: image_iff)
  also have "card \<dots> = card (rand_Int ` fst ` set cs)"
    by (rule card_image) (rule inj_sub_id)
  finally show ?thesis .
qed

text \<open>
  C2, as the code has it. The identifier of a new record is the formatted value of
  \<^verbatim>\<open>rand.Int()\<close>, and \<^verbatim>\<open>Create\<close> stores under it whether or not the key is taken.
  After a run of \<open>N\<close> calls of \<^verbatim>\<open>Create\<close> on a new repository, taken in the order in which
  the calls held the lock, the number of records equals the number of different values
  drawn: it is at most \<open>N\<close>, and it is \<open>N\<close> exactly when the draws are pairwise distinct.
  Every record is held under its own identifier, so no two records of the repository
  share one; this holds after any run of \<^verbatim>\<open>Create\<close>, \<^verbatim>\<open>Update\<close> and
  \<^verbatim>\<open>Delete\<close> calls on a new repository.
\<close>

theorem CreateAll_entries:
  "Count (CreateAll cs NewSubscriptionRepository) = card (rand_Int ` fst ` set cs)
   \<and> Count (CreateAll cs NewSubscriptionRepository) \<le> length cs
   \<and> (Count (CreateAll cs NewSubscriptionRepository) = length cs
        \<longleftrightarrow> distinct (map (rand_Int \<circ> fst) cs))
   \<and> (\<forall>k s. fmlookup (CreateAll cs NewSubscriptionRepository) k = Some s \<longrightarrow> ID s = k)
   \<and> (\<forall>k s. fmlookup (performAll ops NewSubscriptionRepository) k = Some s \<longrightarrow> ID s = k)"
proof -
  have img: "rand_Int ` fst ` set cs = set (map (rand_Int \<circ> fst) cs)"
    by (simp add: image_image)
  have c: "Count (CreateAll cs NewSubscriptionRepository) = card (set (map (rand_Int \<circ> fst) cs))"
    using Count_CreateAll_empty [of cs] img by simp
  have "card (set (map (rand_Int \<circ> fst) cs)) \<le> length (map (rand_Int \<circ> fst) cs)"
    by (rule card_length)
  moreover have "card (set (map (rand_Int \<circ> fst) cs)) = length cs
                   \<longleftrightarrow> distinct (map (rand_Int \<circ> fst) cs)"
    using card_distinct [of "map (rand_Int \<circ> fst) cs"] distinct_card [of "map (rand_Int \<circ> fst) cs"]
    by auto
  moreover have "\<forall>k s. fmlookup (CreateAll cs NewSubscriptionRepository) k = Some s \<longrightarrow> ID s = k"
    using keyed_CreateAll [of NewSubscriptionRepository cs]
    by (simp add: NewSubscriptionRepository_def)
  moreover have "\<forall>k s. fmlookup (performAll ops NewSubscriptionRepository) k = Some s \<longrightarrow> ID s = k"
    using keyed_performAll [of NewSubscriptionRepository ops]
    by (simp add: NewSubscriptionRepository_def)
  ultimately show ?thesis using c Count_CreateAll_empty [of cs] by simp
qed

text \<open>Two calls with different draws leave two records, each under its own identifier.\<close>

theorem CreateAll_entries_witness:
  "distinct (map (rand_Int \<circ> fst) [(env_7, ''u1'', ''basic''), (env_8, ''u2'', ''premium'')])
   \<and> Count (CreateAll [(env_7, ''u1'', ''basic''), (env_8, ''u2'', ''premium'')]
        NewSubscriptionRepository) = 2
   \<and> fmlookup (CreateAll [(env_7, ''u1'', ''basic''), (env_8, ''u2'', ''premium'')]
        NewSubscriptionRepository) ''sub_8''
       = Some \<lparr>ID = ''sub_8'', UserID = ''u2'', Plan = ''premium'', StartDate = 101, EndDate = 201\<rparr>
   \<and> ID \<lparr>ID = ''sub_8'', UserID = ''u2'', Plan = ''premium'', StartDate = 101, EndDate = 201\<rparr>
       = ''sub_8''
   \<and> fmlookup (performAll [Do_Create env_7 ''u1'' ''basic'', Do_Update ''sub_7'' ''u9'' ''premium'',
                              Do_Delete ''sub_8''] NewSubscriptionRepository) ''sub_7''
       = Some \<lparr>ID = ''sub_7'', UserID = ''u9'', Plan = ''premium'', StartDate = 100, EndDate = 200\<rparr>
   \<and> ID \<lparr>ID = ''sub_7'', UserID = ''u9'', Plan = ''premium'', StartDate = 100, EndDate = 200\<rparr>
       = ''sub_7''"
proof -
  have d: "distinct (map (rand_Int \<circ> fst) [(env_7, ''u1'', ''basic''), (env_8, ''u2'', ''premium'')])"
    by (simp add: env_7_def env_8_def)
  have l: "fmlookup (CreateAll [(env_7, ''u1'', ''basic''), (env_8, ''u2'', ''premium'')]
             NewSubscriptionRepository) ''sub_8''
           = Some \<lparr>ID = ''sub_8'', UserID = ''u2'', Plan = ''premium'', StartDate = 101, EndDate = 201\<rparr>"
    by (simp add: env_7_def env_8_def Create_def Let_def Sprintf_d_def decimal.simps digit_def
          NewSubscriptionRepository_def)
  have m: "fmlookup (performAll [Do_Create env_7 ''u1'' ''basic'', Do_Update ''sub_7'' ''u9'' ''premium'',
                                 Do_Delete ''sub_8''] NewSubscriptionRepository) ''sub_7''
           = Some \<lparr>ID = ''sub_7'', UserID = ''u9'', Plan = ''premium'', StartDate = 100, EndDate = 200\<rparr>"
    by (simp add: env_7_def Create_def Update_def Delete_def Let_def Sprintf_d_def decimal.simps
          digit_def NewSubscriptionRepository_def)
  show ?thesis
    using d l m
      CreateAll_entries [of "[(env_7, ''u1'', ''basic''), (env_8, ''u2'', ''premium'')]"
        "[Do_Create env_7 ''u1'' ''basic'', Do_Update ''sub_7'' ''u9'' ''premium'', Do_Delete ''sub_8'']"]
    by simp
qed

text \<open>
  C2, as stated, fails: two calls of \<^verbatim>\<open>Create\<close> for which \<^verbatim>\<open>rand.Int()\<close> yields the same
  value leave one record, the second having replaced the first.
\<close>

theorem CreateAll_same_draw_counterexample:
  "Count (CreateAll [(env_7, ''u1'', ''basic''), (env_7, ''u2'', ''premium'')]
     NewSubscriptionRepository)
   \<noteq> length [(env_7, ''u1'', ''basic''), (env_7, ''u2'', ''premium'')]"
  by (simp add: Count_def Create_def NewSubscriptionRepository_def Let_def fcard.rep_eq)

text \<open>
  C7. \<^verbatim>\<open>Update\<close> on an identifier that is present returns the stored record with the
  user and the plan replaced, and stores it under the same key: the identifier, the start
  and the end of the record are those it had, every other key holds what it held, and the
  set of keys is the same.
\<close>

theorem Update_changes_only_user_and_plan:
  assumes "fmlookup r i = Some s"
  shows "(\<exists>s'. fst (Update i newUser newPlan r) = (s', True)
              \<and> fmlookup (snd (Update i newUser newPlan r)) i = Some s'
              \<and> UserID s' = newUser \<and> Plan s' = newPlan
              \<and> ID s' = ID s \<and> StartDate s' = StartDate s \<and> EndDate s' = EndDate s)
       \<and> (\<forall>j. j \<noteq> i \<longrightarrow> fmlookup (snd (Update i newUser newPlan r)) j = fmlookup r j)
       \<and> fmdom (snd (Update i newUser newPlan r)) = fmdom r"
  using assms by (auto simp add: Update_def Let_def dest: fmdomI)

theorem Update_changes_only_user_and_plan_witness:
  "fmlookup repo_1 ''sub_1'' = Some sub_1
   \<and> fmlookup (snd (Update ''sub_1'' ''u2'' ''premium'' repo_1)) ''sub_1''
       = Some \<lparr>ID = ''sub_1'', UserID = ''u2'', Plan = ''premium'', StartDate = 100, EndDate = 200\<rparr>
   \<and> fmdom (snd (Update ''sub_1'' ''u2'' ''premium'' repo_1)) = fmdom repo_1"
proof -
  have h: "fmlookup repo_1 ''sub_1'' = Some sub_1"
    by (simp add: repo_1_def)
  have "fmlookup (snd (Update ''sub_1'' ''u2'' ''premium'' repo_1)) ''sub_1''
          = Some \<lparr>ID = ''sub_1'', UserID = ''u2'', Plan = ''premium'', StartDate = 100, EndDate = 200\<rparr>"
    by (simp add: Update_def repo_1_def sub_1_def Let_def)
  then show ?thesis
    using h Update_changes_only_user_and_plan [OF h, of "''u2''" "''premium''"] by blast
qed

text \<open>
  C8. \<^verbatim>\<open>Delete\<close> on an identifier that is present returns the stored record with
  found=true and removes that key only; a second \<^verbatim>\<open>Delete\<close> of the same identifier
  returns found=false and leaves the repository as the first call left it.
\<close>

theorem Delete_twice:
  assumes "fmlookup r i = Some s"
  shows "fst (Delete i r) = (s, True)
       \<and> fmlookup (snd (Delete i r)) i = None
       \<and> (\<forall>j. j \<noteq> i \<longrightarrow> fmlookup (snd (Delete i r)) j = fmlookup r j)
       \<and> snd (fst (Delete i (snd (Delete i r)))) = False
       \<and> snd (Delete i (snd (Delete i r))) = snd (Delete i r)"
  using assms by (simp add: Delete_def)

theorem Delete_twice_witness:
  "fmlookup repo_1 ''sub_1'' = Some sub_1
   \<and> fst (Delete ''sub_1'' repo_1) = (sub_1, True)
   \<and> snd (fst (Delete ''sub_1'' (snd (Delete ''sub_1'' repo_1)))) = False
   \<and> snd (Delete ''sub_1'' (snd (Delete ''sub_1'' repo_1))) = snd (Delete ''sub_1'' repo_1)"
proof -
  have h: "fmlookup repo_1 ''sub_1'' = Some sub_1"
    by (simp add: repo_1_def)
  show ?thesis
    using h Delete_twice [OF h] by simp
qed

text \<open>
  C9. \<^verbatim>\<open>Update\<close> on an identifier that is absent returns the zero subscription with
  found=false, and the repository is the one it was given.
\<close>

theorem Update_absent:
  assumes "fmlookup r i = None"
  shows "Update i userID plan r = ((Subscription_zero, False), r)"
  using assms by (simp add: Update_def)

theorem Update_absent_witness:
  "fmlookup repo_1 ''sub_2'' = None
   \<and> Update ''sub_2'' ''u2'' ''premium'' repo_1
       = ((\<lparr>ID = [], UserID = [], Plan = [], StartDate = 0, EndDate = 0\<rparr>, False), repo_1)"
proof -
  have h: "fmlookup repo_1 ''sub_2'' = None"
    by (simp add: repo_1_def)
  show ?thesis
    using h Update_absent [OF h, of "''u2''" "''premium''"] by (simp add: Subscription_zero_def)
qed

section \<open>Rounding to binary floating point\<close>

lemma bitlen_upper: "n < 2 ^ bitlen n"
proof (induction n rule: bitlen.induct)
  case (1 n)
  show ?case
  proof (cases "n = 0")
    case True
    then show ?thesis by (simp add: bitlen.simps)
  next
    case False
    from 1 [OF False] have "n div 2 < 2 ^ bitlen (n div 2)" .
    then have "n < 2 * 2 ^ bitlen (n div 2)" by linarith
    with False show ?thesis by (simp add: bitlen.simps [of n])
  qed
qed

lemma bitlen_lower: "0 < n \<Longrightarrow> 2 ^ (bitlen n - 1) \<le> n"
proof (induction n rule: bitlen.induct)
  case (1 n)
  then have n: "n \<noteq> 0" by simp
  show ?case
  proof (cases "n div 2 = 0")
    case True
    with n show ?thesis by (simp add: bitlen.simps [of n] bitlen.simps [of 0])
  next
    case False
    with 1(1) [OF n] have ih: "2 ^ (bitlen (n div 2) - 1) \<le> n div 2" by simp
    from False have "0 < bitlen (n div 2)" by (simp add: bitlen.simps [of "n div 2"])
    then have "(2::nat) ^ bitlen (n div 2) = 2 * 2 ^ (bitlen (n div 2) - 1)"
      by (cases "bitlen (n div 2)") simp_all
    with ih have "2 ^ bitlen (n div 2) \<le> n" by linarith
    with n show ?thesis by (simp add: bitlen.simps [of n])
  qed
qed

lemma bitlen_pos: "0 < n \<Longrightarrow> 0 < bitlen n"
  by (simp add: bitlen.simps [of n])

lemma exponent_large:
  assumes "1 \<le> y"
  shows "2 powi exponent y \<le> y" and "y < 2 powi (exponent y + 1)"
proof -
  define n where "n = nat \<lfloor>y\<rfloor>"
  define k where "k = bitlen n"
  have fl: "1 \<le> \<lfloor>y\<rfloor>" using assms by linarith
  have rn: "real n = of_int \<lfloor>y\<rfloor>" unfolding n_def using fl by simp
  have n: "0 < n" unfolding n_def using fl by simp
  have ny: "real n \<le> y" and yn: "y < real n + 1"
    unfolding rn by linarith+
  have k: "0 < k" unfolding k_def using n by (rule bitlen_pos)
  have e: "exponent y = int k - 1"
    using assms by (simp add: exponent_def k_def n_def)
  have e1: "int k - 1 = int (k - 1)" using k by simp
  have "(2::nat) ^ (k - 1) \<le> n" unfolding k_def using n by (rule bitlen_lower)
  then have "real (2 ^ (k - 1)) \<le> real n" by (simp only: of_nat_le_iff)
  then have "(2::real) ^ (k - 1) \<le> real n" by simp
  moreover have "(2::real) powi exponent y = 2 ^ (k - 1)"
    unfolding e e1 by (simp only: power_int_of_nat)
  ultimately show "2 powi exponent y \<le> y"
    using ny by linarith
  have "n < 2 ^ k" unfolding k_def by (rule bitlen_upper)
  then have "n + 1 \<le> 2 ^ k" by simp
  then have "real (n + 1) \<le> real (2 ^ k)" by (simp only: of_nat_le_iff)
  then have "real n + 1 \<le> (2::real) ^ k" by simp
  moreover have "(2::real) powi (exponent y + 1) = 2 ^ k"
    unfolding e by (simp only: diff_add_cancel power_int_of_nat)
  ultimately show "y < 2 powi (exponent y + 1)"
    using yn by linarith
qed

lemma exponent_small:
  assumes "0 < y" "y < 1"
  shows "2 powi exponent y \<le> y" and "y < 2 powi (exponent y + 1)"
proof -
  define z where "z = 1 / y"
  define m where "m = nat (\<lceil>z\<rceil> - 1)"
  define k where "k = bitlen m"
  have z: "1 < z" using assms by (simp add: z_def)
  then have c: "2 \<le> \<lceil>z\<rceil>" by linarith
  then have m: "0 < m" unfolding m_def by simp
  have rm: "real m = of_int \<lceil>z\<rceil> - 1" unfolding m_def using c by simp
  have mz: "real m < z" and zm: "z \<le> real m + 1"
    unfolding rm by linarith+
  have k: "0 < k" unfolding k_def using m by (rule bitlen_pos)
  have e: "exponent y = - int k"
    using assms by (simp add: exponent_def k_def m_def z_def)
  have "m < 2 ^ k" unfolding k_def by (rule bitlen_upper)
  then have "m + 1 \<le> 2 ^ k" by simp
  then have "real (m + 1) \<le> real (2 ^ k)" by (simp only: of_nat_le_iff)
  then have "real m + 1 \<le> (2::real) ^ k" by simp
  with zm have "1 / y \<le> 2 ^ k" unfolding z_def by linarith
  then have "1 \<le> 2 ^ k * y" using assms(1) by (simp add: field_simps)
  then have "1 / 2 ^ k \<le> y" by (simp add: field_simps)
  then show "2 powi exponent y \<le> y"
    unfolding e by (simp add: power_int_minus field_simps)
  have "(2::nat) ^ (k - 1) \<le> m" unfolding k_def using m by (rule bitlen_lower)
  then have "real (2 ^ (k - 1)) \<le> real m" by (simp only: of_nat_le_iff)
  then have "(2::real) ^ (k - 1) \<le> real m" by simp
  with mz have "2 ^ (k - 1) < 1 / y" unfolding z_def by linarith
  then have "y * 2 ^ (k - 1) < 1" using assms(1) by (simp add: field_simps)
  then have lt: "y < 1 / 2 ^ (k - 1)" by (simp add: field_simps)
  have "exponent y + 1 = - int (k - 1)" unfolding e using k by simp
  then have "(2::real) powi (exponent y + 1) = 2 powi (- int (k - 1))"
    by (simp only:)
  also have "\<dots> = 1 / 2 ^ (k - 1)"
    by (simp only: power_int_minus power_int_of_nat inverse_eq_divide)
  finally have "(2::real) powi (exponent y + 1) = 1 / 2 ^ (k - 1)" .
  with lt show "y < 2 powi (exponent y + 1)" by simp
qed

lemma exponent_abs: "exponent \<bar>x\<bar> = exponent x"
  by (simp add: exponent_def)

lemma exponent_bounds:
  assumes "x \<noteq> 0"
  shows "2 powi exponent x \<le> \<bar>x\<bar>" and "\<bar>x\<bar> < 2 powi (exponent x + 1)"
proof -
  have y: "0 < \<bar>x\<bar>" using assms by simp
  show "2 powi exponent x \<le> \<bar>x\<bar>"
    using exponent_large(1) [of "\<bar>x\<bar>"] exponent_small(1) [OF y] exponent_abs [of x]
    by (cases "1 \<le> \<bar>x\<bar>") simp_all
  show "\<bar>x\<bar> < 2 powi (exponent x + 1)"
    using exponent_large(2) [of "\<bar>x\<bar>"] exponent_small(2) [OF y] exponent_abs [of x]
    by (cases "1 \<le> \<bar>x\<bar>") simp_all
qed

lemma exponent_unique:
  assumes "2 powi k \<le> \<bar>x\<bar>" "\<bar>x\<bar> < 2 powi (k + 1)"
  shows "exponent x = k"
proof -
  have "(0::real) < 2 powi k" by simp
  with assms(1) have "0 < \<bar>x\<bar>" by linarith
  then have x: "x \<noteq> 0" by simp
  note b = exponent_bounds [OF x]
  have lt1: "(2::real) powi k < 2 powi (exponent x + 1)" using assms(1) b(2) by linarith
  have 1: "k < exponent x + 1"
  proof (rule ccontr)
    assume "\<not> k < exponent x + 1"
    then have "exponent x + 1 \<le> k" by simp
    then have "(2::real) powi (exponent x + 1) \<le> 2 powi k"
      by (rule power_int_increasing) simp
    with lt1 show False by linarith
  qed
  have lt2: "(2::real) powi exponent x < 2 powi (k + 1)" using assms(2) b(1) by linarith
  have 2: "exponent x < k + 1"
  proof (rule ccontr)
    assume "\<not> exponent x < k + 1"
    then have "k + 1 \<le> exponent x" by simp
    then have "(2::real) powi (k + 1) \<le> 2 powi exponent x"
      by (rule power_int_increasing) simp
    with lt2 show False by linarith
  qed
  from 1 2 show ?thesis by simp
qed

lemma roundToEven_error: "\<bar>of_int (roundToEven y) - y\<bar> \<le> 1 / 2"
proof -
  have "of_int \<lfloor>y\<rfloor> \<le> y" "y < of_int \<lfloor>y\<rfloor> + 1" by linarith+
  then show ?thesis
    by (auto simp add: roundToEven_def Let_def)
qed

lemma roundToEven_below_half:
  assumes "y < of_int n + 1 / 2"
  shows "roundToEven y \<le> n"
proof -
  have fl: "of_int \<lfloor>y\<rfloor> \<le> y" by linarith
  have "\<lfloor>y\<rfloor> \<le> n" using assms by linarith
  then consider "\<lfloor>y\<rfloor> = n" | "\<lfloor>y\<rfloor> + 1 \<le> n" by linarith
  then show ?thesis
  proof cases
    case 1
    with assms have "y - of_int \<lfloor>y\<rfloor> < 1 / 2" by simp
    then show ?thesis using 1 by (simp add: roundToEven_def Let_def)
  next
    case 2
    then show ?thesis by (auto simp add: roundToEven_def Let_def)
  qed
qed

lemma roundToEven_le_int:
  assumes "y \<le> of_int N"
  shows "roundToEven y \<le> N"
  using assms by (intro roundToEven_below_half) simp

lemma float64_error:
  assumes "2 powi (- 1022) \<le> \<bar>x\<bar>"
  shows "\<bar>float64 x - x\<bar> \<le> \<bar>x\<bar> / 2 ^ 53"
proof -
  have "(0::real) < 2 powi (- 1022)" by (rule zero_less_power_int) simp
  with assms have "0 < \<bar>x\<bar>" by linarith
  then have x: "x \<noteq> 0" by simp
  define e where "e = exponent x"
  note b = exponent_bounds [OF x, folded e_def]
  have "(2::real) powi (- 1022) < 2 powi (e + 1)" using assms b(2) by linarith
  have e: "- 1022 \<le> e"
  proof (rule ccontr)
    assume "\<not> - 1022 \<le> e"
    then have "e + 1 \<le> - 1022" by simp
    then have "(2::real) powi (e + 1) \<le> 2 powi (- 1022)"
      by (rule power_int_increasing) simp
    with \<open>2 powi (- 1022) < 2 powi (e + 1)\<close> show False by linarith
  qed
  define q where "q = e - 52"
  define p where "p = (2::real) powi q"
  have p: "0 < p" unfolding p_def by (rule zero_less_power_int) simp
  have mx: "max (exponent x - 52) (- 1074) = q"
    using e unfolding q_def e_def by simp
  have f: "float64 x = of_int (roundToEven (x / p)) * p"
    unfolding float64_def Let_def mx p_def using x by simp
  have "float64 x - x = (of_int (roundToEven (x / p)) - x / p) * p"
    unfolding f using p by (simp add: field_simps)
  then have "\<bar>float64 x - x\<bar> = \<bar>of_int (roundToEven (x / p)) - x / p\<bar> * p"
    using p by (simp add: abs_mult)
  also have "\<dots> \<le> 1 / 2 * p"
    using roundToEven_error [of "x / p"] p by (intro mult_right_mono) simp_all
  also have "1 / 2 * p = 2 powi e / 2 ^ 53"
  proof -
    have "p = 2 powi e / 2 powi 52"
      unfolding p_def q_def by (rule power_int_diff) simp
    then show ?thesis by simp
  qed
  also have "\<dots> \<le> \<bar>x\<bar> / 2 ^ 53"
    using b(1) by (intro divide_right_mono) simp_all
  finally show ?thesis .
qed

lemma float64_small:
  assumes "0 < x" "x < 1 / 4"
  shows "float64 x \<le> 1 / 4"
proof -
  have x: "x \<noteq> 0" using assms by simp
  define e where "e = exponent x"
  note b = exponent_bounds [OF x, folded e_def]
  have "(2::real) powi e < 2 powi (- 2)" using b(1) assms by simp
  have e: "e < - 2"
  proof (rule ccontr)
    assume "\<not> e < - 2"
    then have "- 2 \<le> e" by simp
    then have "(2::real) powi (- 2) \<le> 2 powi e"
      by (rule power_int_increasing) simp
    with \<open>2 powi e < 2 powi (- 2)\<close> show False by linarith
  qed
  define q where "q = max (e - 52) (- 1074)"
  define p where "p = (2::real) powi q"
  define N where "N = (2::int) ^ nat (- 2 - q)"
  have q: "q \<le> - 2" using e unfolding q_def by simp
  have p: "0 < p" unfolding p_def by (rule zero_less_power_int) simp
  have f: "float64 x = of_int (roundToEven (x / p)) * p"
    unfolding float64_def Let_def e_def [symmetric] q_def [symmetric] p_def using x by simp
  have "(2::real) powi (- 2 - q) = 2 powi (- 2) / p"
    unfolding p_def by (rule power_int_diff) simp
  moreover have "(2::real) powi (- 2 - q) = 2 ^ nat (- 2 - q)"
    using q by (simp add: power_int_def)
  ultimately have Np: "real_of_int N * p = 1 / 4"
    unfolding N_def using p by (simp add: field_simps)
  then have "x / p < of_int N" using assms(2) p by (simp add: field_simps)
  then have "roundToEven (x / p) \<le> N" by (intro roundToEven_le_int) simp
  then have "real_of_int (roundToEven (x / p)) \<le> real_of_int N" by simp
  then have "float64 x \<le> real_of_int N * p"
    unfolding f using p by (intro mult_right_mono) simp_all
  with Np show ?thesis by simp
qed

lemma float64_below_floor:
  assumes "0 < x" "x < 10808639105689191 / 2 ^ 55"
  shows "float64 x \<le> 5404319552844595 / 2 ^ 54"
proof (cases "x < 1 / 4")
  case True
  from float64_small [OF assms(1) True] show ?thesis by simp
next
  case False
  have x: "x \<noteq> 0" using assms by simp
  have "exponent x = - 2"
    using False assms by (intro exponent_unique) simp_all
  then have f: "float64 x = of_int (roundToEven (x * 2 ^ 54)) / 2 ^ 54"
    using x by (simp add: float64_def Let_def)
  have "x * 2 ^ 54 < of_int 5404319552844595 + 1 / 2" using assms(2) by simp
  then have "roundToEven (x * 2 ^ 54) \<le> 5404319552844595" by (rule roundToEven_below_half)
  then have "real_of_int (roundToEven (x * 2 ^ 54)) \<le> 5404319552844595"
    by (metis of_int_le_iff of_int_numeral)
  then show ?thesis unfolding f by (simp add: field_simps)
qed

lemma float64_literals:
  "float64 0.029 = 8358680908399641 / 2 ^ 58"
  "float64 0.025 = 3602879701896397 / 2 ^ 57"
  "float64 0.02 = 5764607523034235 / 2 ^ 58"
  "float64 0.30 = 5404319552844595 / 2 ^ 54"
  "float64 0.1 = 3602879701896397 / 2 ^ 55"
  by (simp_all add: float64_def exponent_def bitlen.simps roundToEven_def Let_def)

lemma float64_fractions:
  "float64 (29 / 1000) = 8358680908399641 / 2 ^ 58"
  "float64 (1 / 40) = 3602879701896397 / 2 ^ 57"
  "float64 (1 / 50) = 5764607523034235 / 2 ^ 58"
  "float64 (3 / 10) = 5404319552844595 / 2 ^ 54"
  "float64 (1 / 10) = 3602879701896397 / 2 ^ 55"
  by (simp_all add: float64_def exponent_def bitlen.simps roundToEven_def Let_def)

lemma tiny_le_quarter: "(2::real) powi (- 1022) \<le> 1 / 64"
proof -
  have "(2::real) powi (- 1022) \<le> 2 powi (- 6)"
    by (rule power_int_increasing) simp_all
  then show ?thesis by simp
qed

lemma float64_rel_error:
  assumes "1 / 64 \<le> x"
  shows "\<bar>float64 x - x\<bar> \<le> x / 2 ^ 53"
proof -
  have "2 powi (- 1022) \<le> \<bar>x\<bar>" using assms tiny_le_quarter by linarith
  from float64_error [OF this] show ?thesis using assms by simp
qed

lemma CalculateFees_floor:
  assumes "0 < a"
      and "a * (if p = ''premium'' then 2.5 / 100 else if p = ''enterprise'' then 2.0 / 100 else 2.9 / 100) < 0.30"
  shows "CalculateFees a p = float64 0.30"
proof -
  define b where "b = (if p = ''premium'' then float64 0.025
                      else if p = ''enterprise'' then float64 0.02
                      else float64 0.029)"
  have b: "0 < b" unfolding b_def by (simp add: float64_fractions)
  have "a * b < 10808639105689191 / 2 ^ 55"
    using assms unfolding b_def by (simp add: float64_fractions split: if_splits)
  moreover have "0 < a * b" using assms(1) b by simp
  ultimately have "float64 (a * b) \<le> 5404319552844595 / 2 ^ 54"
    by (intro float64_below_floor)
  then have "float64 (a * b) \<le> float64 0.30" by (simp only: float64_literals)
  then show ?thesis
    unfolding CalculateFees_def Let_def b_def [symmetric] by simp
qed

lemma CalculateFees_accuracy:
  assumes "0.30 \<le> a * (if p = ''premium'' then 2.5 / 100 else if p = ''enterprise'' then 2.0 / 100 else 2.9 / 100)"
  shows "\<bar>CalculateFees a p - a * (if p = ''premium'' then 2.5 / 100 else if p = ''enterprise'' then 2.0 / 100 else 2.9 / 100)\<bar>
          \<le> a * (if p = ''premium'' then 2.5 / 100 else if p = ''enterprise'' then 2.0 / 100 else 2.9 / 100) / 2 ^ 51"
proof -
  define r :: real where "r = (if p = ''premium'' then 2.5 / 100 else if p = ''enterprise'' then 2.0 / 100 else 2.9 / 100)"
  define b where "b = (if p = ''premium'' then float64 0.025
                      else if p = ''enterprise'' then float64 0.02
                      else float64 0.029)"
  have br: "b = float64 r" unfolding b_def r_def by simp
  have r: "1 / 64 \<le> r" "r \<le> 1" unfolding r_def by simp_all
  have ar: "3 / 10 \<le> a * r" using assms unfolding r_def by simp
  have a: "0 < a"
  proof (rule ccontr)
    assume "\<not> 0 < a"
    then have "a * r \<le> 0" using r by (simp add: mult_le_0_iff)
    with ar show False by simp
  qed
  have eb: "\<bar>b - r\<bar> \<le> r / 2 ^ 53" unfolding br using r(1) by (rule float64_rel_error)
  have rb: "r \<le> b" unfolding b_def r_def by (simp add: float64_fractions)
  have x: "1 / 64 \<le> a * b"
  proof -
    have "a * r \<le> a * b" using rb a by simp
    with ar show ?thesis by simp
  qed
  have ex: "\<bar>float64 (a * b) - a * b\<bar> \<le> a * b / 2 ^ 53" using x by (rule float64_rel_error)
  have "a * b - a * r = a * (b - r)" by (simp add: algebra_simps)
  then have "\<bar>a * b - a * r\<bar> = a * \<bar>b - r\<bar>" using a by (simp add: abs_mult)
  also have "\<dots> \<le> a * (r / 2 ^ 53)" using eb a by (intro mult_left_mono) simp_all
  finally have e1: "\<bar>a * b - a * r\<bar> \<le> a * r / 2 ^ 53" by simp
  then have "a * b \<le> a * r + a * r / 2 ^ 53" by linarith
  also have "\<dots> \<le> 2 * (a * r)" using ar by simp
  finally have "a * b / 2 ^ 53 \<le> 2 * (a * r) / 2 ^ 53" by (intro divide_right_mono) simp_all
  with ex e1 have "\<bar>float64 (a * b) - a * r\<bar> \<le> 3 * (a * r) / 2 ^ 53" by linarith
  also have "\<dots> \<le> a * r / 2 ^ 51" using ar by simp
  finally have fx: "\<bar>float64 (a * b) - a * r\<bar> \<le> a * r / 2 ^ 51" .
  have c: "float64 0.30 \<le> a * r" using ar by (simp add: float64_fractions)
  have "CalculateFees a p = (if float64 (a * b) < float64 0.30 then float64 0.30 else float64 (a * b))"
    unfolding CalculateFees_def Let_def b_def [symmetric] by simp
  then have "\<bar>CalculateFees a p - a * r\<bar> \<le> \<bar>float64 (a * b) - a * r\<bar>"
    using c by (auto split: if_splits)
  with fx show ?thesis unfolding r_def by linarith
qed

section \<open>The payment processor\<close>

text \<open>
  C5, as stated, fails: the product is rounded. For an amount of 12 and the premium plan
  the exact product with 2.5 percent is 0.30, which is not below 0.30, yet the fee is the
  \<^verbatim>\<open>float64\<close> above it, 0.3000000000000000444 (the constant \<^verbatim>\<open>0.025\<close> is a little more
  than 2.5 percent, and the product lies halfway between two values).
\<close>

theorem CalculateFees_rounding_counterexample:
  "(0::real) < 12
   \<and> \<not> 12 * (2.5 / 100) < (0.30::real)
   \<and> CalculateFees 12 ''premium'' = 1351079888211149 / 2 ^ 52
   \<and> CalculateFees 12 ''premium'' \<noteq> 12 * (2.5 / 100)"
  by (simp add: CalculateFees_def float64_def exponent_def bitlen.simps roundToEven_def Let_def)

lemma CalculateFees_100_basic: "CalculateFees 100 ''basic'' = 1632554864921805 / 2 ^ 49"
  by (simp add: CalculateFees_def float64_def exponent_def bitlen.simps roundToEven_def Let_def)

lemma CalculateFees_10_basic: "CalculateFees 10 ''basic'' = 5404319552844595 / 2 ^ 54"
  by (simp add: CalculateFees_def float64_def exponent_def bitlen.simps roundToEven_def Let_def)

lemma CalculateFees_20_premium: "CalculateFees 20 ''premium'' = 1 / 2"
  by (simp add: CalculateFees_def float64_def exponent_def bitlen.simps roundToEven_def Let_def)

text \<open>
  C5, as the code has it. For a positive amount \<open>a\<close> the fee is computed in \<^verbatim>\<open>float64\<close>:
  it is the product of \<open>a\<close> and the \<^verbatim>\<open>float64\<close> nearest to the rate of the plan (2.5
  percent for premium, 2.0 percent for enterprise, 2.9 percent otherwise), rounded to the
  nearest \<^verbatim>\<open>float64\<close>, and the \<^verbatim>\<open>float64\<close> nearest to 0.30 when that is larger. Whenever
  \<open>a\<close> times the rate is below 0.30 the fee is exactly the \<^verbatim>\<open>float64\<close> nearest to 0.30,
  which is \<open>5404319552844595 / 2\<^sup>5\<^sup>4\<close>; whenever it is at least 0.30 the fee differs from it
  by at most its \<open>2\<^sup>5\<^sup>1\<close>-th part.
\<close>

theorem CalculateFees_float64:
  assumes "0 < a"
  shows "CalculateFees a p =
           max (float64 0.30)
               (float64 (a * float64 (if p = ''premium'' then 2.5 / 100
                                      else if p = ''enterprise'' then 2.0 / 100
                                      else 2.9 / 100)))
       \<and> (a * (if p = ''premium'' then 2.5 / 100
                else if p = ''enterprise'' then 2.0 / 100
                else 2.9 / 100) < 0.30
            \<longrightarrow> CalculateFees a p = float64 0.30)
       \<and> (0.30 \<le> a * (if p = ''premium'' then 2.5 / 100
                        else if p = ''enterprise'' then 2.0 / 100
                        else 2.9 / 100)
            \<longrightarrow> \<bar>CalculateFees a p - a * (if p = ''premium'' then 2.5 / 100
                                            else if p = ''enterprise'' then 2.0 / 100
                                            else 2.9 / 100)\<bar>
                  \<le> a * (if p = ''premium'' then 2.5 / 100
                           else if p = ''enterprise'' then 2.0 / 100
                           else 2.9 / 100) / 2 ^ 51)
       \<and> float64 0.30 = 5404319552844595 / 2 ^ 54"
proof (intro conjI impI)
  show "CalculateFees a p =
           max (float64 0.30)
               (float64 (a * float64 (if p = ''premium'' then 2.5 / 100
                                      else if p = ''enterprise'' then 2.0 / 100
                                      else 2.9 / 100)))"
    by (simp add: CalculateFees_def Let_def max_def)
next
  assume "a * (if p = ''premium'' then 2.5 / 100
               else if p = ''enterprise'' then 2.0 / 100
               else 2.9 / 100) < 0.30"
  with assms show "CalculateFees a p = float64 0.30"
    by (rule CalculateFees_floor)
next
  assume "0.30 \<le> a * (if p = ''premium'' then 2.5 / 100
                       else if p = ''enterprise'' then 2.0 / 100
                       else 2.9 / 100)"
  then show "\<bar>CalculateFees a p - a * (if p = ''premium'' then 2.5 / 100
                                          else if p = ''enterprise'' then 2.0 / 100
                                          else 2.9 / 100)\<bar>
               \<le> a * (if p = ''premium'' then 2.5 / 100
                        else if p = ''enterprise'' then 2.0 / 100
                        else 2.9 / 100) / 2 ^ 51"
    by (rule CalculateFees_accuracy)
next
  show "float64 0.30 = 5404319552844595 / 2 ^ 54"
    by (rule float64_literals)
qed

text \<open>
  A basic plan at 10.00, where the product 0.29 is below the floor, and at 100.00, where
  the fee is the \<^verbatim>\<open>float64\<close> next above 2.9.
\<close>

theorem CalculateFees_float64_witness:
  "(0::real) < 10
   \<and> 10 * (2.9 / 100) < (0.30::real)
   \<and> CalculateFees 10 ''basic'' = 5404319552844595 / 2 ^ 54
   \<and> (0::real) < 100
   \<and> (0.30::real) \<le> 100 * (2.9 / 100)
   \<and> \<bar>CalculateFees 100 ''basic'' - 100 * (2.9 / 100)\<bar> \<le> 100 * (2.9 / 100) / 2 ^ 51
   \<and> CalculateFees 100 ''basic'' = 1632554864921805 / 2 ^ 49"
proof -
  have h: "(0::real) < 10" and h': "(0::real) < 100" by simp_all
  have l: "10 * (2.9 / 100) < (0.30::real)" and g: "(0.30::real) \<le> 100 * (2.9 / 100)" by simp_all
  note t = CalculateFees_float64 [OF h, of "''basic''"]
  note t' = CalculateFees_float64 [OF h', of "''basic''"]
  have "CalculateFees 10 ''basic'' = float64 0.30"
    using t [THEN conjunct2, THEN conjunct1] l by simp
  then have 1: "CalculateFees 10 ''basic'' = 5404319552844595 / 2 ^ 54"
    using t [THEN conjunct2, THEN conjunct2, THEN conjunct2] by simp
  have 2: "\<bar>CalculateFees 100 ''basic'' - 100 * (2.9 / 100)\<bar> \<le> 100 * (2.9 / 100) / 2 ^ 51"
    using t' [THEN conjunct2, THEN conjunct2, THEN conjunct1] g by simp
  from h h' l g 1 2 CalculateFees_100_basic show ?thesis by blast
qed

text \<open>
  C6. A request with an empty subscription identifier, an amount that is not positive, or
  an empty plan is answered with an error of type \<^verbatim>\<open>validation_error\<close> and no response,
  before any sleep and before any draw from the random source.
\<close>

theorem ProcessPayment_validation_first:
  assumes "pr_SubscriptionID req = [] \<or> pr_Amount req \<le> 0 \<or> pr_Plan req = []"
  shows "response (ProcessPayment config env ctx req) = None
       \<and> effects (ProcessPayment config env ctx req) = []
       \<and> (\<exists>e. err (ProcessPayment config env ctx req) = Some e \<and> Type e = ''validation_error'')"
  using assms by (auto simp add: ProcessPayment_def ValidatePaymentRequest_def)

theorem ProcessPayment_validation_first_witness:
  "(pr_SubscriptionID (request_premium\<lparr>pr_Amount := 0\<rparr>) = []
      \<or> pr_Amount (request_premium\<lparr>pr_Amount := 0\<rparr>) \<le> 0
      \<or> pr_Plan (request_premium\<lparr>pr_Amount := 0\<rparr>) = [])
   \<and> ProcessPayment config_failing processor_env None (request_premium\<lparr>pr_Amount := 0\<rparr>)
       = \<lparr>response = None,
          err = Some \<lparr>Code = ''INVALID_AMOUNT'', Message = ''amount must be greater than 0'',
                      Type = ''validation_error''\<rparr>,
          effects = []\<rparr>"
proof -
  have h: "pr_SubscriptionID (request_premium\<lparr>pr_Amount := 0\<rparr>) = []
             \<or> pr_Amount (request_premium\<lparr>pr_Amount := 0\<rparr>) \<le> 0
             \<or> pr_Plan (request_premium\<lparr>pr_Amount := 0\<rparr>) = []"
    by simp
  have "err (ProcessPayment config_failing processor_env None (request_premium\<lparr>pr_Amount := 0\<rparr>))
          = Some \<lparr>Code = ''INVALID_AMOUNT'', Message = ''amount must be greater than 0'',
                  Type = ''validation_error''\<rparr>"
    by (simp add: ProcessPayment_def ValidatePaymentRequest_def request_premium_def)
  then show ?thesis
    using h ProcessPayment_validation_first [OF h, of config_failing processor_env None]
    by (cases "ProcessPayment config_failing processor_env None (request_premium\<lparr>pr_Amount := 0\<rparr>)")
       simp
qed

lemma GetRandomFailureType_kinds:
  "Type (GetRandomFailureType raw) \<in>
     {ErrorTypeInsufficientFunds, ErrorTypeInvalidCard, ErrorTypeNetworkError,
      ErrorTypeProcessingError, ErrorTypeTimeout}"
proof -
  have "raw mod 5 < 5" by simp
  then have "raw mod 5 \<in> {0, 1, 2, 3, 4}" by auto
  then show ?thesis
    by (auto simp add: GetRandomFailureType_def rand_Intn_def failures_def)
qed

text \<open>
  C10. When a request passes validation and the simulated failure is taken, the processor
  returns both a response and an error: the response has status \<^verbatim>\<open>failed\<close>, the amount of
  the request, a newly generated payment identifier and no fees, and the error is of one
  of the five failure types.
\<close>

theorem ProcessPayment_simulated_failure:
  assumes "ValidatePaymentRequest req = None"
      and "EnableFailures config"
      and "ShouldSimulateFailure (failure_Float64 env) (FailureRate config)"
  shows "\<exists>resp e. response (ProcessPayment config env ctx req) = Some resp
              \<and> err (ProcessPayment config env ctx req) = Some e
              \<and> rs_Status resp = ''failed''
              \<and> rs_Amount resp = pr_Amount req
              \<and> rs_ID resp = GeneratePaymentID (id_UnixNano env) (id_Int31 env)
              \<and> rs_Fees resp = 0
              \<and> Type e \<in> {''insufficient_funds'', ''invalid_card'', ''network_error'',
                            ''processing_error'', ''timeout''}"
  using assms GetRandomFailureType_kinds [of "failure_Intn env"]
  by (simp add: ProcessPayment_def Let_def StatusFailed_def
        ErrorTypeInsufficientFunds_def ErrorTypeInvalidCard_def ErrorTypeNetworkError_def
        ErrorTypeProcessingError_def ErrorTypeTimeout_def)

theorem ProcessPayment_simulated_failure_witness:
  "ValidatePaymentRequest request_premium = None
   \<and> EnableFailures config_failing
   \<and> ShouldSimulateFailure (failure_Float64 processor_env) (FailureRate config_failing)
   \<and> (\<exists>resp e. response (ProcessPayment config_failing processor_env None request_premium) = Some resp
              \<and> err (ProcessPayment config_failing processor_env None request_premium) = Some e
              \<and> rs_Status resp = ''failed''
              \<and> rs_Amount resp = pr_Amount request_premium
              \<and> rs_ID resp = GeneratePaymentID (id_UnixNano processor_env) (id_Int31 processor_env)
              \<and> rs_Fees resp = 0
              \<and> Type e \<in> {''insufficient_funds'', ''invalid_card'', ''network_error'',
                            ''processing_error'', ''timeout''})"
proof -
  have v: "ValidatePaymentRequest request_premium = None"
    by (simp add: ValidatePaymentRequest_def request_premium_def)
  have f: "EnableFailures config_failing"
    by (simp add: config_failing_def)
  have d: "ShouldSimulateFailure (failure_Float64 processor_env) (FailureRate config_failing)"
    by (simp add: ShouldSimulateFailure_def processor_env_def config_failing_def)
  show ?thesis
    using v f d ProcessPayment_simulated_failure [OF v f d, of None] by blast
qed

section \<open>The create-subscription handlers\<close>

lemma Delete_Create:
  "snd (Delete (ID (fst (Create env u p r))) (snd (Create env u p r)))
     = fmdrop (ID (fst (Create env u p r))) r"
  by (simp add: Create_def Delete_def Let_def fmdrop_fmupd_same)

lemma V1_failure:
  assumes "u \<noteq> []" "IsValidPlan p"
      and "PaymentService_ProcessPayment ps ctx
             \<lparr>req_SubscriptionID = ID (fst (Create env u p r)), req_Amount = GetPlanPrice p, req_Plan = p\<rparr>
           = Inl e"
  shows "V1_createSubscription ps env ctx (Some (u, p)) r =
           \<lparr>reply = http_Error ''Payment processing failed'' StatusInternalServerError,
            repository = snd (Create env u p r),
            calls = [Call_Create u p,
                     Call_ProcessPayment ctx \<lparr>req_SubscriptionID = ID (fst (Create env u p r)),
                                              req_Amount = GetPlanPrice p, req_Plan = p\<rparr>]\<rparr>"
proof -
  have p: "p \<noteq> []" using assms(2) by (auto simp add: IsValidPlan_def)
  show ?thesis
    using assms p
    by (simp add: V1_createSubscription_def Create_fields split_beta Let_def)
qed

lemma V1_success:
  assumes "u \<noteq> []" "IsValidPlan p"
      and "PaymentService_ProcessPayment ps ctx
             \<lparr>req_SubscriptionID = ID (fst (Create env u p r)), req_Amount = GetPlanPrice p, req_Plan = p\<rparr>
           = Inr x"
  shows "V1_createSubscription ps env ctx (Some (u, p)) r =
           \<lparr>reply = json_Encode (fst (Create env u p r)),
            repository = snd (Create env u p r),
            calls = [Call_Create u p,
                     Call_ProcessPayment ctx \<lparr>req_SubscriptionID = ID (fst (Create env u p r)),
                                              req_Amount = GetPlanPrice p, req_Plan = p\<rparr>]\<rparr>"
proof -
  have p: "p \<noteq> []" using assms(2) by (auto simp add: IsValidPlan_def)
  show ?thesis
    using assms p
    by (simp add: V1_createSubscription_def Create_fields split_beta Let_def)
qed

lemma V2_failure:
  assumes "u \<noteq> []" "IsValidPlan p"
      and "PaymentService_ProcessPayment ps ctx
             \<lparr>req_SubscriptionID = ID (fst (Create env u p r)), req_Amount = GetPlanPrice p, req_Plan = p\<rparr>
           = Inl e"
  shows "V2_createSubscription ps env ctx (Some (u, p)) r =
           \<lparr>reply = http_Error ''Payment processing failed'' StatusInternalServerError,
            repository = fmdrop (ID (fst (Create env u p r))) r,
            calls = [Call_Create u p,
                     Call_ProcessPayment ctx \<lparr>req_SubscriptionID = ID (fst (Create env u p r)),
                                              req_Amount = GetPlanPrice p, req_Plan = p\<rparr>,
                     Call_Delete (ID (fst (Create env u p r)))]\<rparr>"
proof -
  have p: "p \<noteq> []" using assms(2) by (auto simp add: IsValidPlan_def)
  show ?thesis
    using assms p
    by (simp add: V2_createSubscription_def Create_fields split_beta Let_def Delete_Create)
qed

lemma V2_success:
  assumes "u \<noteq> []" "IsValidPlan p"
      and "PaymentService_ProcessPayment ps ctx
             \<lparr>req_SubscriptionID = ID (fst (Create env u p r)), req_Amount = GetPlanPrice p, req_Plan = p\<rparr>
           = Inr x"
  shows "V2_createSubscription ps env ctx (Some (u, p)) r =
           \<lparr>reply = json_Encode (fst (Create env u p r)),
            repository = snd (Create env u p r),
            calls = [Call_Create u p,
                     Call_ProcessPayment ctx \<lparr>req_SubscriptionID = ID (fst (Create env u p r)),
                                              req_Amount = GetPlanPrice p, req_Plan = p\<rparr>]\<rparr>"
proof -
  have p: "p \<noteq> []" using assms(2) by (auto simp add: IsValidPlan_def)
  show ?thesis
    using assms p
    by (simp add: V2_createSubscription_def Create_fields split_beta Let_def)
qed

lemma V3_eq_V2: "V3_createSubscription ps env ctx body r = V2_createSubscription ps env ctx body r"
  by (simp add: V3_createSubscription_def V2_createSubscription_def TraceOperation_def Let_def
        split_beta split: option.splits sum.splits prod.splits)

lemma no_calls_if_rejected:
  assumes "u = [] \<or> \<not> IsValidPlan p"
  shows "calls (V1_createSubscription ps env ctx (Some (u, p)) r) = []"
        "calls (V2_createSubscription ps env ctx (Some (u, p)) r) = []"
  using assms by (auto simp add: V1_createSubscription_def V2_createSubscription_def)

lemma no_calls_if_undecoded:
  shows "calls (V1_createSubscription ps env ctx None r) = []"
        "calls (V2_createSubscription ps env ctx None r) = []"
  by (auto simp add: V1_createSubscription_def V2_createSubscription_def)

lemma V1_charged:
  assumes "Call_ProcessPayment ctx' req \<in> set (calls (V1_createSubscription ps env ctx body r))"
  shows "\<exists>u p. body = Some (u, p) \<and> u \<noteq> [] \<and> IsValidPlan p \<and> ctx' = ctx
           \<and> req = \<lparr>req_SubscriptionID = ID (fst (Create env u p r)),
                     req_Amount = GetPlanPrice p, req_Plan = p\<rparr>"
proof (cases body)
  case None
  with assms show ?thesis by (simp add: no_calls_if_undecoded)
next
  case (Some up)
  obtain u p where up: "up = (u, p)" by (cases up)
  show ?thesis
  proof (cases "u = [] \<or> \<not> IsValidPlan p")
    case True
    with assms Some up show ?thesis by (simp add: no_calls_if_rejected)
  next
    case False
    then have v: "u \<noteq> []" "IsValidPlan p" by simp_all
    show ?thesis
    proof (cases "PaymentService_ProcessPayment ps ctx
             \<lparr>req_SubscriptionID = ID (fst (Create env u p r)), req_Amount = GetPlanPrice p, req_Plan = p\<rparr>")
      case (Inl e)
      from assms show ?thesis
        unfolding Some up V1_failure [OF v Inl] using v by simp
    next
      case (Inr x)
      from assms show ?thesis
        unfolding Some up V1_success [OF v Inr] using v by simp
    qed
  qed
qed

lemma V2_charged:
  assumes "Call_ProcessPayment ctx' req \<in> set (calls (V2_createSubscription ps env ctx body r))"
  shows "\<exists>u p. body = Some (u, p) \<and> u \<noteq> [] \<and> IsValidPlan p \<and> ctx' = ctx
           \<and> req = \<lparr>req_SubscriptionID = ID (fst (Create env u p r)),
                     req_Amount = GetPlanPrice p, req_Plan = p\<rparr>"
proof (cases body)
  case None
  with assms show ?thesis by (simp add: no_calls_if_undecoded)
next
  case (Some up)
  obtain u p where up: "up = (u, p)" by (cases up)
  show ?thesis
  proof (cases "u = [] \<or> \<not> IsValidPlan p")
    case True
    with assms Some up show ?thesis by (simp add: no_calls_if_rejected)
  next
    case False
    then have v: "u \<noteq> []" "IsValidPlan p" by simp_all
    show ?thesis
    proof (cases "PaymentService_ProcessPayment ps ctx
             \<lparr>req_SubscriptionID = ID (fst (Create env u p r)), req_Amount = GetPlanPrice p, req_Plan = p\<rparr>")
      case (Inl e)
      from assms show ?thesis
        unfolding Some up V2_failure [OF v Inl] using v by simp
    next
      case (Inr x)
      from assms show ?thesis
        unfolding Some up V2_success [OF v Inr] using v by simp
    qed
  qed
qed

text \<open>What a failed charge leaves behind in V2 (and V3).\<close>

lemma V2_compensates:
  assumes c: "Call_ProcessPayment ctx' req \<in> set (calls (V2_createSubscription ps env ctx body r))"
      and f: "PaymentService_ProcessPayment ps ctx' req = Inl e"
  shows "\<exists>u p. calls (V2_createSubscription ps env ctx body r)
                 = [Call_Create u p, Call_ProcessPayment ctx' req, Call_Delete (req_SubscriptionID req)]"
    and "repository (V2_createSubscription ps env ctx body r) = fmdrop (req_SubscriptionID req) r"
    and "reply (V2_createSubscription ps env ctx body r)
           = http_Error ''Payment processing failed'' StatusInternalServerError"
proof -
  from V2_charged [OF c] obtain u p where b: "body = Some (u, p)" and v: "u \<noteq> []" "IsValidPlan p"
    and cx: "ctx' = ctx"
    and rq: "req = \<lparr>req_SubscriptionID = ID (fst (Create env u p r)),
                     req_Amount = GetPlanPrice p, req_Plan = p\<rparr>"
    by blast
  from f cx rq have f': "PaymentService_ProcessPayment ps ctx
      \<lparr>req_SubscriptionID = ID (fst (Create env u p r)), req_Amount = GetPlanPrice p, req_Plan = p\<rparr> = Inl e"
    by simp
  show "\<exists>u p. calls (V2_createSubscription ps env ctx body r)
                 = [Call_Create u p, Call_ProcessPayment ctx' req, Call_Delete (req_SubscriptionID req)]"
    unfolding b V2_failure [OF v f'] using cx rq by simp
  show "repository (V2_createSubscription ps env ctx body r) = fmdrop (req_SubscriptionID req) r"
    unfolding b V2_failure [OF v f'] using rq by simp
  show "reply (V2_createSubscription ps env ctx body r)
           = http_Error ''Payment processing failed'' StatusInternalServerError"
    unfolding b V2_failure [OF v f'] by simp
qed

lemma Count_fmdrop_present: "i |\<in>| fmdom r \<Longrightarrow> Count (fmdrop i r) = Count r - 1"
  by (simp add: Count_def)

text \<open>
  C1, as the code has it, for the handlers of V2 and V3. When the charge made by the
  handler returns an error, of whatever kind, the handler's calls are one \<^verbatim>\<open>Create\<close>,
  the charge and one \<^verbatim>\<open>Delete\<close> of the identifier charged, in that order; afterwards
  \<^verbatim>\<open>GetByID\<close> on that identifier reports found=false, and the repository is the one
  before the handler with that key removed. So \<^verbatim>\<open>Count\<close> is what it was when the
  identifier drawn was not a key of the repository, and one less when it was. The handler
  is taken on its own: no other call on the repository falls between its calls.
\<close>

theorem createSubscription_compensates:
  assumes "H = V2_createSubscription ps env ctx body r \<or> H = V3_createSubscription ps env ctx body r"
      and "Call_ProcessPayment ctx' req \<in> set (calls H)"
      and "PaymentService_ProcessPayment ps ctx' req = Inl e"
  shows "(\<exists>u p. calls H = [Call_Create u p, Call_ProcessPayment ctx' req,
                             Call_Delete (req_SubscriptionID req)])
       \<and> count_list (calls H) (Call_Delete (req_SubscriptionID req)) = 1
       \<and> GetByID (req_SubscriptionID req) (repository H) = (Subscription_zero, False)
       \<and> repository H = fmdrop (req_SubscriptionID req) r
       \<and> (req_SubscriptionID req |\<notin>| fmdom r \<longrightarrow> repository H = r \<and> Count (repository H) = Count r)
       \<and> (req_SubscriptionID req |\<in>| fmdom r \<longrightarrow> Count (repository H) = Count r - 1)"
proof -
  from assms(1) have H: "H = V2_createSubscription ps env ctx body r"
    by (auto simp add: V3_eq_V2)
  note c = assms(2) [unfolded H]
  from V2_compensates(1) [OF c assms(3)] obtain u p where
    cs: "calls H = [Call_Create u p, Call_ProcessPayment ctx' req, Call_Delete (req_SubscriptionID req)]"
    unfolding H by blast
  have rp: "repository H = fmdrop (req_SubscriptionID req) r"
    unfolding H by (rule V2_compensates(2) [OF c assms(3)])
  have "count_list (calls H) (Call_Delete (req_SubscriptionID req)) = 1"
    unfolding cs by simp
  moreover have "GetByID (req_SubscriptionID req) (repository H) = (Subscription_zero, False)"
    unfolding rp by (simp add: GetByID_def)
  moreover have "req_SubscriptionID req |\<notin>| fmdom r \<longrightarrow> repository H = r \<and> Count (repository H) = Count r"
    unfolding rp by (simp add: fmdrop_idle)
  moreover have "req_SubscriptionID req |\<in>| fmdom r \<longrightarrow> Count (repository H) = Count r - 1"
    unfolding rp by (simp add: Count_fmdrop_present)
  ultimately show ?thesis using cs rp by blast
qed

lemmas run_defs =
  V1_createSubscription_def V2_createSubscription_def V3_createSubscription_def TraceOperation_def
  PaymentService_ProcessPayment_def Create_def Delete_def GetByID_def Count_def
  IsValidPlan_def GetPlanPrice_def Sprintf_d_def decimal.simps digit_def Let_def
  service_ok_def service_declined_def service_deadline_def new_request_def
  env_1_def env_7_def env_8_def repo_1_def sub_1_def StatusOK_def StatusBadRequest_def
  StatusInternalServerError_def Subscription_zero_def fcard.rep_eq

lemma declined_run:
  "V2_createSubscription service_declined env_7 None (Some (''u1'', ''premium'')) repo_1
     = \<lparr>reply = http_Error ''Payment processing failed'' 500,
        repository = repo_1,
        calls = [Call_Create ''u1'' ''premium'',
                 Call_ProcessPayment None \<lparr>req_SubscriptionID = ''sub_7'', req_Amount = 20, req_Plan = ''premium''\<rparr>,
                 Call_Delete ''sub_7'']\<rparr>"
  by (simp add: run_defs fmdrop_fmupd)

lemma declined_charge:
  "PaymentService_ProcessPayment service_declined None
     \<lparr>req_SubscriptionID = ''sub_7'', req_Amount = 20, req_Plan = ''premium''\<rparr> = Inl (Errorf_status 400)"
  by (simp add: run_defs)

text \<open>
  The scenario of a premium subscription for \<open>u1\<close> whose charge of 20.00 is declined.
\<close>

theorem createSubscription_compensates_witness:
  "Call_ProcessPayment None \<lparr>req_SubscriptionID = ''sub_7'', req_Amount = 20, req_Plan = ''premium''\<rparr>
     \<in> set (calls (V2_createSubscription service_declined env_7 None (Some (''u1'', ''premium'')) repo_1))
   \<and> PaymentService_ProcessPayment service_declined None
        \<lparr>req_SubscriptionID = ''sub_7'', req_Amount = 20, req_Plan = ''premium''\<rparr> = Inl (Errorf_status 400)
   \<and> ''sub_7'' |\<notin>| fmdom repo_1
   \<and> count_list (calls (V2_createSubscription service_declined env_7 None (Some (''u1'', ''premium'')) repo_1))
        (Call_Delete ''sub_7'') = 1
   \<and> GetByID ''sub_7'' (repository (V2_createSubscription service_declined env_7 None
        (Some (''u1'', ''premium'')) repo_1)) = (Subscription_zero, False)
   \<and> Count (repository (V2_createSubscription service_declined env_7 None
        (Some (''u1'', ''premium'')) repo_1)) = Count repo_1"
proof -
  have c: "Call_ProcessPayment None \<lparr>req_SubscriptionID = ''sub_7'', req_Amount = 20, req_Plan = ''premium''\<rparr>
     \<in> set (calls (V2_createSubscription service_declined env_7 None (Some (''u1'', ''premium'')) repo_1))"
    by (simp add: declined_run)
  have n: "''sub_7'' |\<notin>| fmdom repo_1"
    by (simp add: repo_1_def)
  note t = createSubscription_compensates [OF disjI1 [OF refl] c declined_charge]
  have d: "count_list (calls (V2_createSubscription service_declined env_7 None
             (Some (''u1'', ''premium'')) repo_1)) (Call_Delete ''sub_7'') = 1"
    using t [THEN conjunct2, THEN conjunct1] by simp
  have g: "GetByID ''sub_7'' (repository (V2_createSubscription service_declined env_7 None
             (Some (''u1'', ''premium'')) repo_1)) = (Subscription_zero, False)"
    using t [THEN conjunct2, THEN conjunct2, THEN conjunct1] by simp
  have k: "Count (repository (V2_createSubscription service_declined env_7 None
             (Some (''u1'', ''premium'')) repo_1)) = Count repo_1"
    using n t [THEN conjunct2, THEN conjunct2, THEN conjunct2, THEN conjunct2, THEN conjunct1]
    by simp
  from c declined_charge n d g k show ?thesis by blast
qed

text \<open>
  C1, as stated, fails where \<^verbatim>\<open>rand.Int()\<close> yields the identifier of a record that is
  already held: \<^verbatim>\<open>Create\<close> replaces that record, the compensating \<^verbatim>\<open>Delete\<close> removes
  it, and \<^verbatim>\<open>Count\<close> after the handler is one less than before.
\<close>

theorem createSubscription_taken_identifier_counterexample:
  "Call_ProcessPayment None \<lparr>req_SubscriptionID = ''sub_1'', req_Amount = 20, req_Plan = ''premium''\<rparr>
     \<in> set (calls (V2_createSubscription service_declined env_1 None (Some (''u2'', ''premium'')) repo_1))
   \<and> PaymentService_ProcessPayment service_declined None
        \<lparr>req_SubscriptionID = ''sub_1'', req_Amount = 20, req_Plan = ''premium''\<rparr> = Inl (Errorf_status 400)
   \<and> Count repo_1 = 1
   \<and> Count (repository (V2_createSubscription service_declined env_1 None
        (Some (''u2'', ''premium'')) repo_1)) = 0"
  by (simp add: run_defs)

text \<open>
  The handler of V1 answers a failed charge without a \<^verbatim>\<open>Delete\<close>: the record stays.
\<close>

lemma V1_keeps_record:
  assumes c: "Call_ProcessPayment ctx' req \<in> set (calls (V1_createSubscription ps env ctx body r))"
      and f: "PaymentService_ProcessPayment ps ctx' req = Inl e"
  shows "snd (GetByID (req_SubscriptionID req) (repository (V1_createSubscription ps env ctx body r)))"
    and "Call_Delete i \<notin> set (calls (V1_createSubscription ps env ctx body r))"
proof -
  from V1_charged [OF c] obtain u p where b: "body = Some (u, p)" and v: "u \<noteq> []" "IsValidPlan p"
    and cx: "ctx' = ctx"
    and rq: "req = \<lparr>req_SubscriptionID = ID (fst (Create env u p r)),
                     req_Amount = GetPlanPrice p, req_Plan = p\<rparr>"
    by blast
  from f cx rq have f': "PaymentService_ProcessPayment ps ctx
      \<lparr>req_SubscriptionID = ID (fst (Create env u p r)), req_Amount = GetPlanPrice p, req_Plan = p\<rparr> = Inl e"
    by simp
  show "snd (GetByID (req_SubscriptionID req) (repository (V1_createSubscription ps env ctx body r)))"
    unfolding b V1_failure [OF v f'] using rq by (simp add: GetByID_def Create_repo)
  show "Call_Delete i \<notin> set (calls (V1_createSubscription ps env ctx body r))"
    unfolding b V1_failure [OF v f'] by simp
qed

lemma V1_declined_run:
  "V1_createSubscription service_declined env_7 None (Some (''u1'', ''premium'')) fmempty
     = \<lparr>reply = http_Error ''Payment processing failed'' 500,
        repository = fmupd ''sub_7'' \<lparr>ID = ''sub_7'', UserID = ''u1'', Plan = ''premium'',
                                      StartDate = 100, EndDate = 200\<rparr> fmempty,
        calls = [Call_Create ''u1'' ''premium'',
                 Call_ProcessPayment None \<lparr>req_SubscriptionID = ''sub_7'', req_Amount = 20, req_Plan = ''premium''\<rparr>]\<rparr>"
  by (simp add: run_defs)

lemma GetPlanPrice_table:
  "GetPlanPrice q = (if q = ''basic'' then 10 else if q = ''premium'' then 20 else 0)"
  by (simp add: GetPlanPrice_def)

lemma success_persists:
  assumes v: "u \<noteq> []" "IsValidPlan p"
      and H: "H = \<lparr>reply = json_Encode (fst (Create env u p r)),
                   repository = snd (Create env u p r),
                   calls = cs\<rparr>"
  shows "\<exists>sub. reply H = json_Encode sub \<and> ID sub = ID (fst (Create env u p r))
               \<and> GetByID (ID sub) (repository H) = (sub, True)
               \<and> UserID sub = u \<and> Plan sub = p"
  unfolding H by (simp add: GetByID_def Create_repo Create_fields)

text \<open>
  C3. In each of the three handlers, when the charge made for a request with user \<open>u\<close> and
  plan \<open>p\<close> succeeds, the handler answers with a subscription whose identifier is the one
  charged; \<^verbatim>\<open>GetByID\<close> on that identifier in the repository the handler leaves reports
  found=true with that subscription, whose user is \<open>u\<close> and whose plan is \<open>p\<close>. The amount
  charged is \<^verbatim>\<open>GetPlanPrice\<close> of \<open>p\<close>, which is 10 for basic, 20 for premium and 0 for any
  other plan.
\<close>

theorem createSubscription_persists:
  assumes "H = V1_createSubscription ps env ctx (Some (u, p)) r
         \<or> H = V2_createSubscription ps env ctx (Some (u, p)) r
         \<or> H = V3_createSubscription ps env ctx (Some (u, p)) r"
      and "Call_ProcessPayment ctx' req \<in> set (calls H)"
      and "PaymentService_ProcessPayment ps ctx' req = Inr resp"
  shows "(\<exists>sub. reply H = json_Encode sub \<and> ID sub = req_SubscriptionID req
               \<and> GetByID (ID sub) (repository H) = (sub, True)
               \<and> UserID sub = u \<and> Plan sub = p)
       \<and> req_Amount req = GetPlanPrice p
       \<and> (\<forall>q. GetPlanPrice q = (if q = ''basic'' then 10 else if q = ''premium'' then 20 else 0))"
proof -
  from assms(1) have H: "H = V1_createSubscription ps env ctx (Some (u, p)) r
                       \<or> H = V2_createSubscription ps env ctx (Some (u, p)) r"
    by (auto simp add: V3_eq_V2)
  from H assms(2) have ch: "u \<noteq> [] \<and> IsValidPlan p \<and> ctx' = ctx
           \<and> req = \<lparr>req_SubscriptionID = ID (fst (Create env u p r)),
                     req_Amount = GetPlanPrice p, req_Plan = p\<rparr>"
    using V1_charged [of ctx' req ps env ctx "Some (u, p)" r]
          V2_charged [of ctx' req ps env ctx "Some (u, p)" r]
    by auto
  then have v: "u \<noteq> []" "IsValidPlan p" and cx: "ctx' = ctx"
    and rq: "req = \<lparr>req_SubscriptionID = ID (fst (Create env u p r)),
                     req_Amount = GetPlanPrice p, req_Plan = p\<rparr>"
    by simp_all
  from assms(3) cx rq have ok: "PaymentService_ProcessPayment ps ctx
      \<lparr>req_SubscriptionID = ID (fst (Create env u p r)), req_Amount = GetPlanPrice p, req_Plan = p\<rparr>
      = Inr resp"
    by simp
  from H have "\<exists>cs. H = \<lparr>reply = json_Encode (fst (Create env u p r)),
                   repository = snd (Create env u p r), calls = cs\<rparr>"
    using V1_success [OF v ok] V2_success [OF v ok] by auto
  then obtain cs where "H = \<lparr>reply = json_Encode (fst (Create env u p r)),
                   repository = snd (Create env u p r), calls = cs\<rparr>" ..
  from success_persists [OF v this]
  have "\<exists>sub. reply H = json_Encode sub \<and> ID sub = req_SubscriptionID req
               \<and> GetByID (ID sub) (repository H) = (sub, True)
               \<and> UserID sub = u \<and> Plan sub = p"
    using rq by simp
  moreover have "req_Amount req = GetPlanPrice p" using rq by simp
  ultimately show ?thesis using GetPlanPrice_table by blast
qed

lemma ok_run:
  "V2_createSubscription service_ok env_8 None (Some (''u2'', ''basic'')) repo_1
     = \<lparr>reply = json_Encode \<lparr>ID = ''sub_8'', UserID = ''u2'', Plan = ''basic'',
                              StartDate = 101, EndDate = 201\<rparr>,
        repository = fmupd ''sub_8'' \<lparr>ID = ''sub_8'', UserID = ''u2'', Plan = ''basic'',
                              StartDate = 101, EndDate = 201\<rparr> repo_1,
        calls = [Call_Create ''u2'' ''basic'',
                 Call_ProcessPayment None \<lparr>req_SubscriptionID = ''sub_8'', req_Amount = 10, req_Plan = ''basic''\<rparr>]\<rparr>"
  by (simp add: run_defs)

lemma ok_charge:
  "PaymentService_ProcessPayment service_ok None
     \<lparr>req_SubscriptionID = ''sub_8'', req_Amount = 10, req_Plan = ''basic''\<rparr>
   = Inr \<lparr>resp_ID = ''pmt_42_5'', resp_Status = ''completed'', resp_Message = []\<rparr>"
  by (simp add: run_defs)

text \<open>
  The scenario of a basic subscription for \<open>u2\<close> whose charge of 10.00 succeeds.
\<close>

theorem createSubscription_persists_witness:
  "Call_ProcessPayment None \<lparr>req_SubscriptionID = ''sub_8'', req_Amount = 10, req_Plan = ''basic''\<rparr>
     \<in> set (calls (V2_createSubscription service_ok env_8 None (Some (''u2'', ''basic'')) repo_1))
   \<and> PaymentService_ProcessPayment service_ok None
        \<lparr>req_SubscriptionID = ''sub_8'', req_Amount = 10, req_Plan = ''basic''\<rparr>
      = Inr \<lparr>resp_ID = ''pmt_42_5'', resp_Status = ''completed'', resp_Message = []\<rparr>
   \<and> (\<exists>sub. reply (V2_createSubscription service_ok env_8 None (Some (''u2'', ''basic'')) repo_1)
                = json_Encode sub
            \<and> ID sub = ''sub_8''
            \<and> GetByID (ID sub) (repository (V2_createSubscription service_ok env_8 None
                 (Some (''u2'', ''basic'')) repo_1)) = (sub, True)
            \<and> UserID sub = ''u2'' \<and> Plan sub = ''basic'')
   \<and> GetPlanPrice ''basic'' = 10"
proof -
  have c: "Call_ProcessPayment None \<lparr>req_SubscriptionID = ''sub_8'', req_Amount = 10, req_Plan = ''basic''\<rparr>
     \<in> set (calls (V2_createSubscription service_ok env_8 None (Some (''u2'', ''basic'')) repo_1))"
    by (simp add: ok_run)
  note t = createSubscription_persists [OF disjI2 [OF disjI1 [OF refl]] c ok_charge]
  have e: "\<exists>sub. reply (V2_createSubscription service_ok env_8 None (Some (''u2'', ''basic'')) repo_1)
                = json_Encode sub
            \<and> ID sub = ''sub_8''
            \<and> GetByID (ID sub) (repository (V2_createSubscription service_ok env_8 None
                 (Some (''u2'', ''basic'')) repo_1)) = (sub, True)
            \<and> UserID sub = ''u2'' \<and> Plan sub = ''basic''"
    using t [THEN conjunct1] by simp
  have g: "GetPlanPrice ''basic'' = 10"
    using t [THEN conjunct2, THEN conjunct1] by simp
  from c ok_charge e g show ?thesis by blast
qed

section \<open>Deadlines\<close>

text \<open>
  C4, as stated, fails for the processor: under a context whose deadline has elapsed it
  sleeps for the configured delay all the same and returns a completed response with no
  error.
\<close>

theorem ProcessPayment_elapsed_deadline_counterexample:
  "ProcessPayment config_default processor_env (Some DeadlineExceeded) request_premium
     = \<lparr>response = Some \<lparr>rs_ID = ''pmt_42_5'', rs_Status = ''completed'', rs_Amount = 20,
                          rs_Currency = ''USD'', rs_ProcessedAt = 300, rs_Fees = 0.5\<rparr>,
        err = None,
        effects = [Sleep 100000000, Rand_Int31, Rand_Float64]\<rparr>"
  by (simp add: ProcessPayment_def ValidatePaymentRequest_def config_default_def processor_env_def
        request_premium_def GeneratePaymentID_def Sprintf_d_def decimal.simps digit_def
        StatusCompleted_def getCurrency_def CalculateFees_20_premium float64_fractions
        Millisecond_def Let_def)

text \<open>
  C4, as the code has it. The processor does not consult its context: its result is the
  same under every context. The payment client of the subscription service hands the
  context to the HTTP request, and when sending that request fails, as it does when the
  transport gives up on an elapsed deadline, it returns the transport's error wrapped. The
  handlers of V2 and V3 answer any error of the payment client with one \<^verbatim>\<open>Delete\<close> of the
  identifier charged, after which \<^verbatim>\<open>GetByID\<close> on it reports found=false.
\<close>

theorem deadline_handling:
  "ProcessPayment config env ctx req = ProcessPayment config env None req
   \<and> (json_Marshal ps q = Inr paymentData
        \<and> http_NewRequestWithContext ps ctx ''POST'' (baseURL ps @ ''/payments'') paymentData = Inr httpReq
        \<and> client_Do ps httpReq = Inl e
      \<longrightarrow> PaymentService_ProcessPayment ps ctx q = Inl (Errorf ''failed to send payment request'' e))
   \<and> ((H = V2_createSubscription ps env' ctx body r \<or> H = V3_createSubscription ps env' ctx body r)
        \<and> Call_ProcessPayment ctx' q' \<in> set (calls H)
        \<and> PaymentService_ProcessPayment ps ctx' q' = Inl ce
      \<longrightarrow> count_list (calls H) (Call_Delete (req_SubscriptionID q')) = 1
          \<and> GetByID (req_SubscriptionID q') (repository H) = (Subscription_zero, False))"
proof (intro conjI impI)
  show "ProcessPayment config env ctx req = ProcessPayment config env None req"
    by (simp add: ProcessPayment_def)
next
  assume "json_Marshal ps q = Inr paymentData
        \<and> http_NewRequestWithContext ps ctx ''POST'' (baseURL ps @ ''/payments'') paymentData = Inr httpReq
        \<and> client_Do ps httpReq = Inl e"
  then show "PaymentService_ProcessPayment ps ctx q = Inl (Errorf ''failed to send payment request'' e)"
    by (simp add: PaymentService_ProcessPayment_def)
next
  assume a: "(H = V2_createSubscription ps env' ctx body r \<or> H = V3_createSubscription ps env' ctx body r)
        \<and> Call_ProcessPayment ctx' q' \<in> set (calls H)
        \<and> PaymentService_ProcessPayment ps ctx' q' = Inl ce"
  then have H: "H = V2_createSubscription ps env' ctx body r"
    by (auto simp add: V3_eq_V2)
  from a have c: "Call_ProcessPayment ctx' q' \<in> set (calls (V2_createSubscription ps env' ctx body r))"
    and f: "PaymentService_ProcessPayment ps ctx' q' = Inl ce"
    unfolding H by simp_all
  from V2_compensates(1) [OF c f] show "count_list (calls H) (Call_Delete (req_SubscriptionID q')) = 1"
    unfolding H by auto
  from V2_compensates(2) [OF c f]
  show "GetByID (req_SubscriptionID q') (repository H) = (Subscription_zero, False)"
    unfolding H by (simp add: GetByID_def)
qed

lemma deadline_run:
  "V2_createSubscription service_deadline env_7 (Some DeadlineExceeded) (Some (''u1'', ''premium'')) repo_1
     = \<lparr>reply = http_Error ''Payment processing failed'' 500,
        repository = repo_1,
        calls = [Call_Create ''u1'' ''premium'',
                 Call_ProcessPayment (Some DeadlineExceeded)
                   \<lparr>req_SubscriptionID = ''sub_7'', req_Amount = 20, req_Plan = ''premium''\<rparr>,
                 Call_Delete ''sub_7'']\<rparr>"
  by (simp add: run_defs fmdrop_fmupd)

text \<open>
  A transport that gives up on an elapsed deadline, under the handler of V2.
\<close>

theorem deadline_handling_witness:
  "json_Marshal service_deadline
       \<lparr>req_SubscriptionID = ''sub_7'', req_Amount = 20, req_Plan = ''premium''\<rparr> = Inr ''{}''
   \<and> http_NewRequestWithContext service_deadline (Some DeadlineExceeded) ''POST''
        (baseURL service_deadline @ ''/payments'') ''{}''
      = Inr \<lparr>hr_ctx = Some DeadlineExceeded, hr_method = ''POST'',
              hr_url = ''http://payment-service:8081/payments'', hr_body = ''{}''\<rparr>
   \<and> client_Do service_deadline
        \<lparr>hr_ctx = Some DeadlineExceeded, hr_method = ''POST'',
         hr_url = ''http://payment-service:8081/payments'', hr_body = ''{}''\<rparr>
      = Inl context_DeadlineExceeded
   \<and> PaymentService_ProcessPayment service_deadline (Some DeadlineExceeded)
        \<lparr>req_SubscriptionID = ''sub_7'', req_Amount = 20, req_Plan = ''premium''\<rparr>
      = Inl (Errorf ''failed to send payment request'' context_DeadlineExceeded)
   \<and> Call_ProcessPayment (Some DeadlineExceeded)
        \<lparr>req_SubscriptionID = ''sub_7'', req_Amount = 20, req_Plan = ''premium''\<rparr>
      \<in> set (calls (V2_createSubscription service_deadline env_7 (Some DeadlineExceeded)
                      (Some (''u1'', ''premium'')) repo_1))
   \<and> count_list (calls (V2_createSubscription service_deadline env_7 (Some DeadlineExceeded)
                      (Some (''u1'', ''premium'')) repo_1)) (Call_Delete ''sub_7'') = 1
   \<and> GetByID ''sub_7'' (repository (V2_createSubscription service_deadline env_7
        (Some DeadlineExceeded) (Some (''u1'', ''premium'')) repo_1)) = (Subscription_zero, False)"
proof -
  have m: "json_Marshal service_deadline
       \<lparr>req_SubscriptionID = ''sub_7'', req_Amount = 20, req_Plan = ''premium''\<rparr> = Inr ''{}''"
    by (simp add: service_deadline_def service_ok_def)
  have n: "http_NewRequestWithContext service_deadline (Some DeadlineExceeded) ''POST''
        (baseURL service_deadline @ ''/payments'') ''{}''
      = Inr \<lparr>hr_ctx = Some DeadlineExceeded, hr_method = ''POST'',
              hr_url = ''http://payment-service:8081/payments'', hr_body = ''{}''\<rparr>"
    by (simp add: service_deadline_def service_ok_def new_request_def)
  have d: "client_Do service_deadline
        \<lparr>hr_ctx = Some DeadlineExceeded, hr_method = ''POST'',
         hr_url = ''http://payment-service:8081/payments'', hr_body = ''{}''\<rparr>
      = Inl context_DeadlineExceeded"
    by (simp add: service_deadline_def service_ok_def)
  have c: "Call_ProcessPayment (Some DeadlineExceeded)
        \<lparr>req_SubscriptionID = ''sub_7'', req_Amount = 20, req_Plan = ''premium''\<rparr>
      \<in> set (calls (V2_createSubscription service_deadline env_7 (Some DeadlineExceeded)
                      (Some (''u1'', ''premium'')) repo_1))"
    by (simp add: deadline_run)
  note t = deadline_handling
    [where ps = service_deadline and ctx = "Some DeadlineExceeded"
       and q = "\<lparr>req_SubscriptionID = ''sub_7'', req_Amount = 20, req_Plan = ''premium''\<rparr>"
       and paymentData = "''{}''"
       and httpReq = "\<lparr>hr_ctx = Some DeadlineExceeded, hr_method = ''POST'',
                        hr_url = ''http://payment-service:8081/payments'', hr_body = ''{}''\<rparr>"
       and e = context_DeadlineExceeded
       and H = "V2_createSubscription service_deadline env_7 (Some DeadlineExceeded)
                  (Some (''u1'', ''premium'')) repo_1"
       and env' = env_7 and body = "Some (''u1'', ''premium'')" and r = repo_1
       and ctx' = "Some DeadlineExceeded"
       and q' = "\<lparr>req_SubscriptionID = ''sub_7'', req_Amount = 20, req_Plan = ''premium''\<rparr>"
       and ce = "Errorf ''failed to send payment request'' context_DeadlineExceeded"]
  from t [THEN conjunct2, THEN conjunct1] m n d
  have f: "PaymentService_ProcessPayment service_deadline (Some DeadlineExceeded)
        \<lparr>req_SubscriptionID = ''sub_7'', req_Amount = 20, req_Plan = ''premium''\<rparr>
      = Inl (Errorf ''failed to send payment request'' context_DeadlineExceeded)"
    by blast
  from t [THEN conjunct2, THEN conjunct2] c f
  have "count_list (calls (V2_createSubscription service_deadline env_7 (Some DeadlineExceeded)
                      (Some (''u1'', ''premium'')) repo_1)) (Call_Delete ''sub_7'') = 1
      \<and> GetByID ''sub_7'' (repository (V2_createSubscription service_deadline env_7
           (Some DeadlineExceeded) (Some (''u1'', ''premium'')) repo_1)) = (Subscription_zero, False)"
    by simp
  with m n d f c show ?thesis by blast
qed

end
